theory Spec2Isabelle
  imports Complex_Main "HOL-Library.AList"
begin

section \<open>The movie pipeline: data model\<close>

text \<open>
  The script \<^verbatim>\<open>movie_dags_pipeline.py\<close> declares eight tasks that exchange CSV files in
  one directory, load the merged table into PostgreSQL, draw one bar chart and delete
  the CSV files. Each task is embedded as a function on an explicit state: the file
  system for the file tasks, the database for the load.

  A CSV file is represented by the table it holds (its header and its typed cells, as
  \<^verbatim>\<open>pandas.read_csv\<close> returns them and as \<^verbatim>\<open>csv.DictWriter\<close> and
  \<^verbatim>\<open>DataFrame.to_csv\<close> write them), a PNG file by the chart that was drawn. An integer
  cell is a 64-bit integer, as pandas keeps it, and arithmetic on integers wraps around
  as numpy's does. A float cell holds the real number of the float (the infinities are
  left out); floor division and
  the product are computed on the reals, which is what float64 gives below \<open>2\<^sup>5\<^sup>3\<close> in
  magnitude (the statements are restricted to such values), and the float mean of the
  chart is a parameter. What a task prints on standard output is left out, and so are
  failures of the platform (permissions, a full disk, a database that cannot be
  reached, the server's limits on the number of columns and the size of a row).
\<close>

type_synonym path = string

datatype cell = IntV int | FloatV real | StrV string | NaN

record frame =
  columns :: "string list"
  rows :: "cell list list"

record chart =
  kind :: string
  title :: string
  ylabel :: string
  bars :: "(cell \<times> cell) list"

datatype content = Blank | Csv frame | Png chart

datatype node = File content | Dir

text \<open>
  The file system: paths (compared as strings) with what is stored there, in directory
  order. The first binding of a path is the one that counts.
\<close>

type_synonym filesystem = "(path \<times> node) list"

datatype error =
    FileNotFoundError | IsADirectoryError | NotADirectoryError | FileExistsError
  | EmptyDataError | ParserError | KeyError string | TypeError | ValueError | IndexError
  | MergeError
  | InvalidSchemaName | UndefinedTable | UndefinedColumn string | DuplicateColumn | SyntaxError

text \<open>A task leaves a file system behind, and either raises or returns a value.\<close>

type_synonym 'a outcome = "filesystem \<times> (error + 'a)"

subsection \<open>Configuration\<close>

definition OUTPUT_DIR :: path where
  "OUTPUT_DIR = ''/opt/airflow/data/movies''"

definition TARGET_TABLE :: string where
  "TARGET_TABLE = ''movies_final''"

definition SCHEMA :: string where
  "SCHEMA = ''week9_movies''"

subsection \<open>Paths and files\<close>

text \<open>\<^verbatim>\<open>os.path.join\<close> of two components (POSIX).\<close>

definition os_path_join :: "path \<Rightarrow> string \<Rightarrow> path" where
  "os_path_join a b =
     (if b \<noteq> [] \<and> hd b = CHR ''/'' then b
      else if a = [] \<or> last a = CHR ''/'' then a @ b
      else a @ ''/'' @ b)"

text \<open>
  Opening a path for writing creates the file or replaces its content; on a directory
  it raises. The directory that holds the path is not looked up: the script makes its
  output directory when it is loaded (line 16), and every file is written there or in a
  directory made just before.
\<close>

definition write_file :: "filesystem \<Rightarrow> path \<Rightarrow> content \<Rightarrow> error + filesystem" where
  "write_file fs p c =
     (case map_of fs p of
        Some Dir \<Rightarrow> Inl IsADirectoryError
      | _ \<Rightarrow> Inr (AList.update p (File c) fs))"

text \<open>
  \<^verbatim>\<open>csv.DictWriter(f, fieldnames=data[0].keys())\<close>, \<^verbatim>\<open>writeheader()\<close> and
  \<^verbatim>\<open>writerows(data)\<close>: the header is the key list of the first dictionary, a key
  that a dictionary lacks is written as the empty string, and a key outside the header
  raises \<^verbatim>\<open>ValueError\<close>.
\<close>

definition DictWriter_rows :: "(string \<times> cell) list list \<Rightarrow> error + frame" where
  "DictWriter_rows data =
     (case data of
        [] \<Rightarrow> Inl IndexError
      | d0 # _ \<Rightarrow>
          (let fieldnames = map fst d0 in
           if list_ex (\<lambda>d. list_ex (\<lambda>k. k \<notin> set fieldnames) (map fst d)) data
           then Inl ValueError
           else Inr \<lparr>columns = fieldnames,
                     rows = map (\<lambda>d. map (\<lambda>k. case map_of d k of
                                                   None \<Rightarrow> StrV [] | Some v \<Rightarrow> v)
                                           fieldnames) data\<rparr>))"

section \<open>Data ingestion\<close>

definition movies_data :: "(string \<times> cell) list list" where
  "movies_data =
     [[(''movie_id'', IntV 1), (''title'', StrV ''Inception''),
       (''genre'', StrV ''Sci-Fi''), (''year'', IntV 2010)],
      [(''movie_id'', IntV 2), (''title'', StrV ''The Dark Knight''),
       (''genre'', StrV ''Action''), (''year'', IntV 2008)],
      [(''movie_id'', IntV 3), (''title'', StrV ''Interstellar''),
       (''genre'', StrV ''Sci-Fi''), (''year'', IntV 2014)],
      [(''movie_id'', IntV 4), (''title'', StrV ''Tenet''),
       (''genre'', StrV ''Action''), (''year'', IntV 2020)],
      [(''movie_id'', IntV 5), (''title'', StrV ''Dunkirk''),
       (''genre'', StrV ''War''), (''year'', IntV 2017)]]"

definition ratings_data :: "(string \<times> cell) list list" where
  "ratings_data =
     [[(''movie_id'', IntV 1), (''user_id'', IntV 101), (''rating'', FloatV 9.0)],
      [(''movie_id'', IntV 2), (''user_id'', IntV 102), (''rating'', FloatV 9.5)],
      [(''movie_id'', IntV 3), (''user_id'', IntV 103), (''rating'', FloatV 8.8)],
      [(''movie_id'', IntV 4), (''user_id'', IntV 104), (''rating'', FloatV 7.5)],
      [(''movie_id'', IntV 5), (''user_id'', IntV 105), (''rating'', FloatV 8.0)]]"

text \<open>
  Both fetch tasks open their file for writing (which empties it), write the literal
  through a \<^verbatim>\<open>DictWriter\<close> and return the path.
\<close>

definition write_dicts :: "filesystem \<Rightarrow> path \<Rightarrow> (string \<times> cell) list list \<Rightarrow> path outcome" where
  "write_dicts fs p data =
     (case write_file fs p Blank of
        Inl e \<Rightarrow> (fs, Inl e)
      | Inr fs0 \<Rightarrow>
          (case DictWriter_rows data of
             Inl e \<Rightarrow> (fs0, Inl e)
           | Inr df \<Rightarrow> (AList.update p (File (Csv df)) fs0, Inr p)))"

definition fetch_movies :: "filesystem \<Rightarrow> path \<Rightarrow> path outcome" where
  "fetch_movies fs output_dir =
     (let data = movies_data;
          p = os_path_join output_dir ''movies.csv''
      in write_dicts fs p data)"

definition fetch_ratings :: "filesystem \<Rightarrow> path \<Rightarrow> path outcome" where
  "fetch_ratings fs output_dir =
     (let data = ratings_data;
          p = os_path_join output_dir ''ratings.csv''
      in write_dicts fs p data)"

section \<open>Tables\<close>

text \<open>
  \<^verbatim>\<open>pandas.read_csv\<close>: the table of a CSV file. A missing path, a directory, an empty
  file and a file that is no text each raise.
\<close>

definition read_csv :: "filesystem \<Rightarrow> path \<Rightarrow> error + frame" where
  "read_csv fs p =
     (case map_of fs p of
        None \<Rightarrow> Inl FileNotFoundError
      | Some Dir \<Rightarrow> Inl IsADirectoryError
      | Some (File Blank) \<Rightarrow> Inl EmptyDataError
      | Some (File (Png _)) \<Rightarrow> Inl ParserError
      | Some (File (Csv df)) \<Rightarrow> Inr df)"

text \<open>\<^verbatim>\<open>df.to_csv(path, index=False)\<close>.\<close>

definition to_csv :: "filesystem \<Rightarrow> path \<Rightarrow> frame \<Rightarrow> error + filesystem" where
  "to_csv fs p df = write_file fs p (Csv df)"

text \<open>The position of a column name in the header, the first one if there are several.\<close>

fun index_of :: "'a \<Rightarrow> 'a list \<Rightarrow> nat option" where
  "index_of x [] = None"
| "index_of x (y # ys) = (if x = y then Some 0 else map_option Suc (index_of x ys))"

text \<open>A row that is shorter than the header is read with missing values at its end.\<close>

definition cell_at :: "cell list \<Rightarrow> nat \<Rightarrow> cell" where
  "cell_at r i = (if i < length r then r ! i else NaN)"

fun is_str :: "cell \<Rightarrow> bool" where
  "is_str (StrV s) = True"
| "is_str c = False"

text \<open>A missing value is the float \<^verbatim>\<open>nan\<close>.\<close>

fun is_float :: "cell \<Rightarrow> bool" where
  "is_float (FloatV r) = True"
| "is_float NaN = True"
| "is_float c = False"

text \<open>\<^verbatim>\<open>df[name]\<close>: the column, or \<^verbatim>\<open>KeyError\<close>.\<close>

definition get_column :: "frame \<Rightarrow> string \<Rightarrow> error + cell list" where
  "get_column df name =
     (case index_of name (columns df) of
        None \<Rightarrow> Inl (KeyError name)
      | Some i \<Rightarrow> Inr (map (\<lambda>r. cell_at r i) (rows df)))"

text \<open>
  \<^verbatim>\<open>df[name] = values\<close>: a column of that name is replaced where it stands, a new
  name is added as the last column.
\<close>

definition set_column :: "frame \<Rightarrow> string \<Rightarrow> cell list \<Rightarrow> frame" where
  "set_column df name vals =
     (case index_of name (columns df) of
        Some i \<Rightarrow> \<lparr>columns = columns df,
                   rows = map (\<lambda>(r, v). r[i := v]) (zip (rows df) vals)\<rparr>
      | None \<Rightarrow> \<lparr>columns = columns df @ [name],
                 rows = map (\<lambda>(r, v). r @ [v]) (zip (rows df) vals)\<rparr>)"

text \<open>
  The result of an operation on 64-bit integers: numpy keeps the low 64 bits, read as a
  signed number, and reports no overflow.
\<close>

definition wrap64 :: "int \<Rightarrow> int" where
  "wrap64 x = (x + 9223372036854775808) mod 18446744073709551616 - 9223372036854775808"

text \<open>
  \<^verbatim>\<open>series // k\<close> and \<^verbatim>\<open>series * k\<close> for an integer \<open>k\<close>. Floor division raises
  on a column of strings; the product of a string is its repetition, as in Python.
\<close>

definition series_floordiv :: "cell list \<Rightarrow> int \<Rightarrow> error + cell list" where
  "series_floordiv xs k =
     (if list_ex is_str xs then Inl TypeError
      else Inr (map (\<lambda>c. case c of
                            IntV y \<Rightarrow> IntV (wrap64 (y div k))
                          | FloatV y \<Rightarrow> FloatV (of_int \<lfloor>y / of_int k\<rfloor>)
                          | _ \<Rightarrow> c) xs))"

definition series_mul :: "cell list \<Rightarrow> int \<Rightarrow> cell list" where
  "series_mul xs k =
     map (\<lambda>c. case c of
                 IntV y \<Rightarrow> IntV (wrap64 (y * k))
               | FloatV y \<Rightarrow> FloatV (y * of_int k)
               | StrV s \<Rightarrow> StrV (concat (replicate (nat k) s))
               | NaN \<Rightarrow> NaN) xs"

text \<open>
  \<^verbatim>\<open>pandas.cut(series, bins, labels)\<close> with its default right-closed intervals: the
  label of the interval \<open>(lo, hi]\<close> that holds the value, a missing value when none does.
\<close>

fun cut_value :: "real list \<Rightarrow> string list \<Rightarrow> real \<Rightarrow> cell" where
  "cut_value (lo # hi # bins) (l # labels) x =
     (if lo < x \<and> x \<le> hi then StrV l else cut_value (hi # bins) labels x)"
| "cut_value bins labels x = NaN"

definition cut :: "cell list \<Rightarrow> real list \<Rightarrow> string list \<Rightarrow> error + cell list" where
  "cut xs bins labels =
     (if \<not> sorted_wrt (<) bins \<or> length labels + 1 \<noteq> length bins then Inl ValueError
      else if list_ex is_str xs then Inl TypeError
      else Inr (map (\<lambda>c. case c of
                            IntV i \<Rightarrow> cut_value bins labels (of_int i)
                          | FloatV r \<Rightarrow> cut_value bins labels r
                          | _ \<Rightarrow> NaN) xs))"






section \<open>Transformations\<close>

text \<open>Line 85 of the script: \<^verbatim>\<open>df["decade"] = (df["year"] // 10) * 10\<close>.\<close>

definition add_decade :: "frame \<Rightarrow> error + frame" where
  "add_decade df =
     (case get_column df ''year'' of
        Inl e \<Rightarrow> Inl e
      | Inr year \<Rightarrow>
          (case series_floordiv year 10 of
             Inl e \<Rightarrow> Inl e
           | Inr q \<Rightarrow> Inr (set_column df ''decade'' (series_mul q 10))))"

definition transform_movies :: "filesystem \<Rightarrow> path \<Rightarrow> path outcome" where
  "transform_movies fs movies_path =
     (case read_csv fs movies_path of
        Inl e \<Rightarrow> (fs, Inl e)
      | Inr df \<Rightarrow>
          (case add_decade df of
             Inl e \<Rightarrow> (fs, Inl e)
           | Inr df' \<Rightarrow>
               (let p = os_path_join OUTPUT_DIR ''movies_transformed.csv''
                in case to_csv fs p df' of
                     Inl e \<Rightarrow> (fs, Inl e)
                   | Inr fs' \<Rightarrow> (fs', Inr p))))"

text \<open>Lines 93 to 95 of the script: the column \<^verbatim>\<open>rating_category\<close>.\<close>

definition add_rating_category :: "frame \<Rightarrow> error + frame" where
  "add_rating_category df =
     (case get_column df ''rating'' of
        Inl e \<Rightarrow> Inl e
      | Inr rating \<Rightarrow>
          (case cut rating [0, 7, 8.5, 10] [''Low'', ''Medium'', ''High''] of
             Inl e \<Rightarrow> Inl e
           | Inr cat \<Rightarrow> Inr (set_column df ''rating_category'' cat)))"

definition transform_ratings :: "filesystem \<Rightarrow> path \<Rightarrow> path outcome" where
  "transform_ratings fs ratings_path =
     (case read_csv fs ratings_path of
        Inl e \<Rightarrow> (fs, Inl e)
      | Inr df \<Rightarrow>
          (case add_rating_category df of
             Inl e \<Rightarrow> (fs, Inl e)
           | Inr df' \<Rightarrow>
               (let p = os_path_join OUTPUT_DIR ''ratings_transformed.csv''
                in case to_csv fs p df' of
                     Inl e \<Rightarrow> (fs, Inl e)
                   | Inr fs' \<Rightarrow> (fs', Inr p))))"

section \<open>Merge\<close>


section \<open>Load to PostgreSQL\<close>

text \<open>
  The database: the schemas that exist and, for each schema and table name, the columns
  of the table with their declared types and its rows. A row has one value for each
  column of the table, \<open>None\<close> for SQL's \<^verbatim>\<open>NULL\<close>.

  The task writes its three statements as SQL text and pastes the names of the header
  into the text as they are, without quotes. A name of at most 63 letters, digits and
  underscores that starts with a letter or an underscore is read by the server as one
  identifier, folded to lower case. The server refuses some of these identifiers as the
  name of a column (reserved key words such as \<^verbatim>\<open>order\<close>, names of system columns
  such as \<^verbatim>\<open>ctid\<close>): which ones is the parameter \<open>reserved\<close> of the task. For a header
  of names that the server reads as columns, the statements are represented by their
  parsed form. What the server makes of the text when a name of the header is of
  another form (a space, a quote, a comma or a percent sign in it, a reserved word) is
  not modelled: the outcome of the task is then the parameter \<open>unparsed\<close>.

  A statement that names a column twice, an \<^verbatim>\<open>INSERT\<close> with an empty column list or
  with a number of values other than that of its columns, and a column that the table
  does not have are errors. Every value is stored as it is given, as in a column of
  type \<^verbatim>\<open>TEXT\<close> without constraints.
\<close>

definition lower_char :: "char \<Rightarrow> char" where
  "lower_char c =
     (case map_of (zip ''ABCDEFGHIJKLMNOPQRSTUVWXYZ'' ''abcdefghijklmnopqrstuvwxyz'') c of
        Some l \<Rightarrow> l
      | None \<Rightarrow> c)"

definition fold_name :: "string \<Rightarrow> string" where
  "fold_name s = map lower_char s"

definition plain_name :: "string \<Rightarrow> bool" where
  "plain_name s =
     (s \<noteq> [] \<and> length s \<le> 63 \<and>
      hd s \<in> set ''abcdefghijklmnopqrstuvwxyzABCDEFGHIJKLMNOPQRSTUVWXYZ_'' \<and>
      list_all (\<lambda>c. c \<in> set ''abcdefghijklmnopqrstuvwxyzABCDEFGHIJKLMNOPQRSTUVWXYZ_0123456789'') s)"

definition sql_column :: "(string \<Rightarrow> bool) \<Rightarrow> string \<Rightarrow> bool" where
  "sql_column reserved s = (plain_name s \<and> \<not> reserved (fold_name s))"

record table =
  tcolumns :: "(string \<times> string) list"
  trows :: "string option list list"

record database =
  schemas :: "string set"
  tables :: "string \<times> string \<rightharpoonup> table"

datatype statement =
    CreateSchemaIfNotExists string
  | CreateTableIfNotExists string string "(string \<times> string) list"
  | InsertInto string string "string list" "string list"

fun execute :: "database \<Rightarrow> statement \<Rightarrow> error + database" where
  "execute db (CreateSchemaIfNotExists s) = Inr (db\<lparr>schemas := insert s (schemas db)\<rparr>)"
| "execute db (CreateTableIfNotExists s t cols) =
     (if s \<notin> schemas db then Inl InvalidSchemaName
      else case tables db (s, t) of
        Some tb \<Rightarrow> Inr db
      | None \<Rightarrow>
          if \<not> distinct (map fst cols) then Inl DuplicateColumn
          else Inr (db\<lparr>tables := (tables db)((s, t) \<mapsto> \<lparr>tcolumns = cols, trows = []\<rparr>)\<rparr>))"
| "execute db (InsertInto s t cols vals) =
     (case tables db (s, t) of
        None \<Rightarrow> Inl UndefinedTable
      | Some tb \<Rightarrow>
          if cols = [] \<or> length vals \<noteq> length cols then Inl SyntaxError
          else if \<not> distinct cols then Inl DuplicateColumn
          else (case filter (\<lambda>c. c \<notin> set (map fst (tcolumns tb))) cols of
             c # _ \<Rightarrow> Inl (UndefinedColumn c)
           | [] \<Rightarrow>
               Inr (db\<lparr>tables := (tables db)((s, t) \<mapsto>
                      tb\<lparr>trows := trows tb @
                            [map (\<lambda>c. map_of (zip cols vals) c) (map fst (tcolumns tb))]\<rparr>)\<rparr>)))"

text \<open>
  \<^verbatim>\<open>df.iterrows()\<close> yields each row with one value for every column. In a table with
  no column of strings the row has one numeric type, so integers come as floats as
  soon as one column holds floats.
\<close>

fun to_float :: "cell \<Rightarrow> cell" where
  "to_float (IntV i) = FloatV (of_int i)"
| "to_float c = c"

definition iterrows :: "frame \<Rightarrow> cell list list" where
  "iterrows df =
     (let rs = map (\<lambda>r. map (cell_at r) [0..<length (columns df)]) (rows df)
      in if \<not> list_ex (list_ex is_str) rs \<and> list_ex (list_ex is_float) rs
         then map (map to_float) rs else rs)"

text \<open>The loop of the task: one \<^verbatim>\<open>INSERT\<close> for each row, stopping at the first error.\<close>

fun insert_rows :: "database \<Rightarrow> (string list \<Rightarrow> statement) \<Rightarrow> string list list \<Rightarrow> error + database" where
  "insert_rows db insert_sql [] = Inr db"
| "insert_rows db insert_sql (vals # rest) =
     (case execute db (insert_sql vals) of
        Inl e \<Rightarrow> Inl e
      | Inr db' \<Rightarrow> insert_rows db' insert_sql rest)"

text \<open>
  The task. \<open>py_str\<close> is Python's \<^verbatim>\<open>str\<close> on the values of a row. The statements
  run in one transaction that is committed after the last row, so a run that raises
  leaves the database as it was.
\<close>

definition load_to_postgres ::
  "(cell \<Rightarrow> string) \<Rightarrow> (string \<Rightarrow> bool) \<Rightarrow> (frame \<Rightarrow> database \<Rightarrow> database \<times> (error + nat)) \<Rightarrow>
   database \<Rightarrow> filesystem \<Rightarrow> path \<Rightarrow> database \<times> (error + nat)" where
  "load_to_postgres py_str reserved unparsed db fs csv_path =
     (case read_csv fs csv_path of
        Inl e \<Rightarrow> (db, Inl e)
      | Inr df \<Rightarrow>
          if \<not> list_all (sql_column reserved) (columns df) then unparsed df db
          else
            (let names = map fold_name (columns df);
                 create_schema = CreateSchemaIfNotExists SCHEMA;
                 create_table = CreateTableIfNotExists SCHEMA TARGET_TABLE
                                  (map (\<lambda>col. (col, ''TEXT'')) names);
                 insert_sql = InsertInto SCHEMA TARGET_TABLE names
             in case execute db create_schema of
                  Inl e \<Rightarrow> (db, Inl e)
                | Inr db1 \<Rightarrow>
                    (case execute db1 create_table of
                       Inl e \<Rightarrow> (db, Inl e)
                     | Inr db2 \<Rightarrow>
                         (case insert_rows db2 insert_sql (map (map py_str) (iterrows df)) of
                            Inl e \<Rightarrow> (db, Inl e)
                          | Inr db3 \<Rightarrow> (db3, Inr (length (rows df)))))))"

section \<open>Analysis and visualization\<close>



fun number :: "cell \<Rightarrow> real" where
  "number (IntV i) = of_int i"
| "number (FloatV r) = r"
| "number c = 0"









section \<open>Cleanup\<close>

text \<open>\<^verbatim>\<open>str.endswith\<close>.\<close>

definition endswith :: "string \<Rightarrow> string \<Rightarrow> bool" where
  "endswith s suffix = (take (length suffix) (rev s) = rev suffix)"

text \<open>
  The name under which a path is an entry of a folder: the path is the folder, a
  slash and a name without a slash.
\<close>

definition child_name :: "path \<Rightarrow> path \<Rightarrow> string option" where
  "child_name folder p =
     (let pre = (if folder \<noteq> [] \<and> last folder = CHR ''/'' then folder else folder @ ''/'');
          name = drop (length pre) p
      in if take (length pre) p = pre \<and> name \<noteq> [] \<and> CHR ''/'' \<notin> set name
         then Some name else None)"

text \<open>
  \<^verbatim>\<open>os.listdir\<close>: the names of the entries of a directory, files and directories. The
  empty path names no directory.
\<close>

definition listdir :: "filesystem \<Rightarrow> path \<Rightarrow> error + string list" where
  "listdir fs folder =
     (if folder = [] then Inl FileNotFoundError
      else case map_of fs folder of
        None \<Rightarrow> Inl FileNotFoundError
      | Some (File c) \<Rightarrow> Inl NotADirectoryError
      | Some Dir \<Rightarrow> Inr (remdups (List.map_filter (child_name folder) (map fst fs))))"

text \<open>\<^verbatim>\<open>os.remove\<close> deletes a file and raises on a directory.\<close>

definition os_remove :: "filesystem \<Rightarrow> path \<Rightarrow> error + filesystem" where
  "os_remove fs p =
     (case map_of fs p of
        None \<Rightarrow> Inl FileNotFoundError
      | Some Dir \<Rightarrow> Inl IsADirectoryError
      | Some (File c) \<Rightarrow> Inr (AList.delete p fs))"

text \<open>
  The loop over the listing. What it has deleted stays deleted when a later
  \<^verbatim>\<open>os.remove\<close> raises.
\<close>

fun cleanup_loop :: "filesystem \<Rightarrow> path \<Rightarrow> string list \<Rightarrow> unit outcome" where
  "cleanup_loop fs folder [] = (fs, Inr ())"
| "cleanup_loop fs folder (file # rest) =
     (if endswith file ''.csv''
      then (case os_remove fs (os_path_join folder file) of
              Inl e \<Rightarrow> (fs, Inl e)
            | Inr fs' \<Rightarrow> cleanup_loop fs' folder rest)
      else cleanup_loop fs folder rest)"

definition cleanup_folder :: "filesystem \<Rightarrow> path \<Rightarrow> unit outcome" where
  "cleanup_folder fs folder =
     (case listdir fs folder of
        Inl e \<Rightarrow> (fs, Inl e)
      | Inr files \<Rightarrow> cleanup_loop fs folder files)"

section \<open>Pipeline orchestration\<close>

text \<open>
  The tasks of the DAG and its edges. An edge comes from passing the output of one
  task to another (lines 100, 101 and 178 to 180 of the script) or from the operator
  \<^verbatim>\<open>>>\<close> (lines 184 and 185).
\<close>

datatype task =
    T_fetch_movies | T_fetch_ratings | T_transform_movies | T_transform_ratings
  | T_merge_datasets | T_load_to_postgres | T_analyze_and_visualize | T_cleanup_folder

definition argument_edges :: "(task \<times> task) list" where
  "argument_edges =
     [(T_fetch_movies, T_transform_movies),
      (T_fetch_ratings, T_transform_ratings),
      (T_transform_movies, T_merge_datasets),
      (T_transform_ratings, T_merge_datasets),
      (T_merge_datasets, T_load_to_postgres),
      (T_merge_datasets, T_analyze_and_visualize)]"

definition declared_edges :: "(task \<times> task) list" where
  "declared_edges =
     [(T_transform_movies, T_merge_datasets),
      (T_transform_ratings, T_merge_datasets),
      (T_merge_datasets, T_load_to_postgres),
      (T_load_to_postgres, T_analyze_and_visualize),
      (T_analyze_and_visualize, T_cleanup_folder)]"

definition upstream :: "task \<Rightarrow> task list" where
  "upstream t = map fst (filter (\<lambda>e. snd e = t) (argument_edges @ declared_edges))"

text \<open>
  A run of the DAG is the list of its events, the latest first. The scheduler starts
  a task when every task upstream of it has succeeded (the trigger rule of every task
  here is the default one); a task that failed may be started again.
\<close>

datatype event = Start task | Success task | Failure task

fun running :: "task \<Rightarrow> event list \<Rightarrow> bool" where
  "running t [] = False"
| "running t (e # h) =
     (if e = Start t then True
      else if e = Success t \<or> e = Failure t then False
      else running t h)"

fun may_happen :: "event \<Rightarrow> event list \<Rightarrow> bool" where
  "may_happen (Start t) h =
     (list_all (\<lambda>u. Success u \<in> set h) (upstream t) \<and> \<not> running t h \<and> Success t \<notin> set h)"
| "may_happen (Success t) h = running t h"
| "may_happen (Failure t) h = running t h"

fun valid_run :: "event list \<Rightarrow> bool" where
  "valid_run [] = True"
| "valid_run (e # h) = (may_happen e h \<and> valid_run h)"

text \<open>A task hands its file system and its result to the next one.\<close>

definition and_then :: "'a outcome \<Rightarrow> (filesystem \<Rightarrow> 'a \<Rightarrow> 'b outcome) \<Rightarrow> 'b outcome" where
  "and_then r f = (case r of (fs, Inl e) \<Rightarrow> (fs, Inl e) | (fs, Inr x) \<Rightarrow> f fs x)"

definition movies_branch :: "filesystem \<Rightarrow> path outcome" where
  "movies_branch fs = and_then (fetch_movies fs OUTPUT_DIR) transform_movies"

definition ratings_branch :: "filesystem \<Rightarrow> path outcome" where
  "ratings_branch fs = and_then (fetch_ratings fs OUTPUT_DIR) transform_ratings"


section \<open>Notions of the statements\<close>

text \<open>
  A table is rectangular when every row has one cell for each column; the table of a
  CSV file that pandas has read or written is.
\<close>

definition rectangular :: "frame \<Rightarrow> bool" where
  "rectangular df = list_all (\<lambda>r. length r = length (columns df)) (rows df)"

text \<open>
  The decade of a year, as claim C4 words it: \<open>(year // 10) * 10\<close>, on an integer and on
  a float; a missing year has no decade.
\<close>

fun year_to_decade :: "cell \<Rightarrow> cell" where
  "year_to_decade (IntV y) = IntV ((y div 10) * 10)"
| "year_to_decade (FloatV y) = FloatV (of_int \<lfloor>y / 10\<rfloor> * 10)"
| "year_to_decade c = NaN"

text \<open>
  The years on which the code computes this value exactly: a 64-bit integer whose decade
  is a 64-bit integer too (all but the eight smallest), a float below \<open>2\<^sup>5\<^sup>3\<close> in magnitude,
  and a missing value.
\<close>

fun exact_year :: "cell \<Rightarrow> bool" where
  "exact_year (IntV y) = (- 9223372036854775800 \<le> y \<and> y < 9223372036854775808)"
| "exact_year (FloatV x) = (\<bar>x\<bar> < 9007199254740992)"
| "exact_year (StrV s) = False"
| "exact_year NaN = True"


text \<open>
  The category of a rating, as claim C8 words it: right-closed buckets, and a missing
  value for a rating in no bucket and for a missing rating.
\<close>

definition right_closed_bucket :: "cell \<Rightarrow> cell" where
  "right_closed_bucket c =
     (if c = NaN then NaN
      else if 0 < number c \<and> number c \<le> 7 then StrV ''Low''
      else if 7 < number c \<and> number c \<le> 8.5 then StrV ''Medium''
      else if 8.5 < number c \<and> number c \<le> 10 then StrV ''High''
      else NaN)"

text \<open>The number of rows of a table of the database; a table that does not exist has none.\<close>

definition row_count :: "database \<Rightarrow> string \<times> string \<Rightarrow> nat" where
  "row_count db k = (case tables db k of None \<Rightarrow> 0 | Some tb \<Rightarrow> length (trows tb))"

text \<open>
  The statements of one run of \<^verbatim>\<open>load_to_postgres\<close> in the order of their execution,
  for a header of names that the server reads as columns: the two \<^verbatim>\<open>CREATE\<close>
  statements and one \<^verbatim>\<open>INSERT\<close> for each row.
\<close>

fun execute_all :: "database \<Rightarrow> statement list \<Rightarrow> error + database" where
  "execute_all db [] = Inr db"
| "execute_all db (st # sts) =
     (case execute db st of Inl e \<Rightarrow> Inl e | Inr db' \<Rightarrow> execute_all db' sts)"

definition load_statements :: "(cell \<Rightarrow> string) \<Rightarrow> frame \<Rightarrow> statement list" where
  "load_statements py_str df =
     [CreateSchemaIfNotExists SCHEMA,
      CreateTableIfNotExists SCHEMA TARGET_TABLE
        (map (\<lambda>col. (col, ''TEXT'')) (map fold_name (columns df)))] @
     map (\<lambda>row. InsertInto SCHEMA TARGET_TABLE (map fold_name (columns df)) (map py_str row))
       (iterrows df)"


section \<open>The fixed tables\<close>

text \<open>The tables that the fetch tasks write, and what the two transformations make of them.\<close>

definition movies_csv :: frame where
  "movies_csv =
     \<lparr>columns = [''movie_id'', ''title'', ''genre'', ''year''],
      rows = [[IntV 1, StrV ''Inception'', StrV ''Sci-Fi'', IntV 2010],
              [IntV 2, StrV ''The Dark Knight'', StrV ''Action'', IntV 2008],
              [IntV 3, StrV ''Interstellar'', StrV ''Sci-Fi'', IntV 2014],
              [IntV 4, StrV ''Tenet'', StrV ''Action'', IntV 2020],
              [IntV 5, StrV ''Dunkirk'', StrV ''War'', IntV 2017]]\<rparr>"

definition ratings_csv :: frame where
  "ratings_csv =
     \<lparr>columns = [''movie_id'', ''user_id'', ''rating''],
      rows = [[IntV 1, IntV 101, FloatV 9.0],
              [IntV 2, IntV 102, FloatV 9.5],
              [IntV 3, IntV 103, FloatV 8.8],
              [IntV 4, IntV 104, FloatV 7.5],
              [IntV 5, IntV 105, FloatV 8.0]]\<rparr>"

definition movies_transformed_csv :: frame where
  "movies_transformed_csv =
     \<lparr>columns = [''movie_id'', ''title'', ''genre'', ''year'', ''decade''],
      rows = [[IntV 1, StrV ''Inception'', StrV ''Sci-Fi'', IntV 2010, IntV 2010],
              [IntV 2, StrV ''The Dark Knight'', StrV ''Action'', IntV 2008, IntV 2000],
              [IntV 3, StrV ''Interstellar'', StrV ''Sci-Fi'', IntV 2014, IntV 2010],
              [IntV 4, StrV ''Tenet'', StrV ''Action'', IntV 2020, IntV 2020],
              [IntV 5, StrV ''Dunkirk'', StrV ''War'', IntV 2017, IntV 2010]]\<rparr>"

definition ratings_transformed_csv :: frame where
  "ratings_transformed_csv =
     \<lparr>columns = [''movie_id'', ''user_id'', ''rating'', ''rating_category''],
      rows = [[IntV 1, IntV 101, FloatV 9.0, StrV ''High''],
              [IntV 2, IntV 102, FloatV 9.5, StrV ''High''],
              [IntV 3, IntV 103, FloatV 8.8, StrV ''High''],
              [IntV 4, IntV 104, FloatV 7.5, StrV ''Medium''],
              [IntV 5, IntV 105, FloatV 8.0, StrV ''Medium'']]\<rparr>"

definition merged_csv :: frame where
  "merged_csv =
     \<lparr>columns = [''movie_id'', ''title'', ''genre'', ''year'', ''decade'',
                 ''user_id'', ''rating'', ''rating_category''],
      rows = [[IntV 1, StrV ''Inception'', StrV ''Sci-Fi'', IntV 2010, IntV 2010,
               IntV 101, FloatV 9.0, StrV ''High''],
              [IntV 2, StrV ''The Dark Knight'', StrV ''Action'', IntV 2008, IntV 2000,
               IntV 102, FloatV 9.5, StrV ''High''],
              [IntV 3, StrV ''Interstellar'', StrV ''Sci-Fi'', IntV 2014, IntV 2010,
               IntV 103, FloatV 8.8, StrV ''High''],
              [IntV 4, StrV ''Tenet'', StrV ''Action'', IntV 2020, IntV 2020,
               IntV 104, FloatV 7.5, StrV ''Medium''],
              [IntV 5, StrV ''Dunkirk'', StrV ''War'', IntV 2017, IntV 2010,
               IntV 105, FloatV 8.0, StrV ''Medium'']]\<rparr>"

lemma DictWriter_movies: "DictWriter_rows movies_data = Inr movies_csv"
  by (simp add: DictWriter_rows_def movies_data_def movies_csv_def)

lemma DictWriter_ratings: "DictWriter_rows ratings_data = Inr ratings_csv"
  by (simp add: DictWriter_rows_def ratings_data_def ratings_csv_def)

lemma write_dicts_dir:
  "map_of fs p = Some Dir \<Longrightarrow> write_dicts fs p data = (fs, Inl IsADirectoryError)"
  by (simp add: write_dicts_def write_file_def)

lemma write_dicts_ok:
  "map_of fs p \<noteq> Some Dir \<Longrightarrow> DictWriter_rows data = Inr df \<Longrightarrow>
   write_dicts fs p data = (AList.update p (File (Csv df)) fs, Inr p)"
  by (auto simp: write_dicts_def write_file_def split: option.splits node.splits)

lemma write_dicts_twice:
  "DictWriter_rows data = Inr df \<Longrightarrow>
   write_dicts (fst (write_dicts fs p data)) p data = write_dicts fs p data"
proof (cases "map_of fs p = Some Dir")
  case True
  then show ?thesis by (simp add: write_dicts_dir)
next
  case False
  assume df: "DictWriter_rows data = Inr df"
  have "map_of (AList.update p (File (Csv df)) fs) p \<noteq> Some Dir"
    by (simp add: update_conv')
  with False df show ?thesis by (simp add: write_dicts_ok)
qed

section \<open>The two branches\<close>

lemma movies_path: "os_path_join OUTPUT_DIR ''movies.csv'' = ''/opt/airflow/data/movies/movies.csv''"
  by (simp add: os_path_join_def OUTPUT_DIR_def)
lemma ratings_path: "os_path_join OUTPUT_DIR ''ratings.csv'' = ''/opt/airflow/data/movies/ratings.csv''"
  by (simp add: os_path_join_def OUTPUT_DIR_def)
lemma movies_transformed_path: "os_path_join OUTPUT_DIR ''movies_transformed.csv'' = ''/opt/airflow/data/movies/movies_transformed.csv''"
  by (simp add: os_path_join_def OUTPUT_DIR_def)
lemma ratings_transformed_path: "os_path_join OUTPUT_DIR ''ratings_transformed.csv'' = ''/opt/airflow/data/movies/ratings_transformed.csv''"
  by (simp add: os_path_join_def OUTPUT_DIR_def)

lemma add_decade_movies: "add_decade movies_csv = Inr movies_transformed_csv"
  by (simp add: add_decade_def get_column_def movies_csv_def cell_at_def series_floordiv_def
      set_column_def series_mul_def wrap64_def movies_transformed_csv_def)

lemma add_rating_category_ratings: "add_rating_category ratings_csv = Inr ratings_transformed_csv"
  by (simp add: add_rating_category_def get_column_def ratings_csv_def cell_at_def cut_def
      set_column_def ratings_transformed_csv_def)

lemma to_csv_eq:
  "to_csv fs p df = (if map_of fs p = Some Dir then Inl IsADirectoryError
                     else Inr (AList.update p (File (Csv df)) fs))"
  by (simp add: to_csv_def write_file_def split: option.splits node.splits)

lemma transform_movies_eq:
  "transform_movies fs p =
     (case read_csv fs p of
        Inl e \<Rightarrow> (fs, Inl e)
      | Inr df \<Rightarrow>
          (case add_decade df of
             Inl e \<Rightarrow> (fs, Inl e)
           | Inr df' \<Rightarrow>
               if map_of fs ''/opt/airflow/data/movies/movies_transformed.csv'' = Some Dir
               then (fs, Inl IsADirectoryError)
               else (AList.update ''/opt/airflow/data/movies/movies_transformed.csv''
                       (File (Csv df')) fs,
                     Inr ''/opt/airflow/data/movies/movies_transformed.csv'')))"
  by (simp add: transform_movies_def movies_transformed_path to_csv_eq Let_def split: sum.splits)

lemma transform_ratings_eq:
  "transform_ratings fs p =
     (case read_csv fs p of
        Inl e \<Rightarrow> (fs, Inl e)
      | Inr df \<Rightarrow>
          (case add_rating_category df of
             Inl e \<Rightarrow> (fs, Inl e)
           | Inr df' \<Rightarrow>
               if map_of fs ''/opt/airflow/data/movies/ratings_transformed.csv'' = Some Dir
               then (fs, Inl IsADirectoryError)
               else (AList.update ''/opt/airflow/data/movies/ratings_transformed.csv''
                       (File (Csv df')) fs,
                     Inr ''/opt/airflow/data/movies/ratings_transformed.csv'')))"
  by (simp add: transform_ratings_def ratings_transformed_path to_csv_eq Let_def split: sum.splits)

lemma read_csv_Csv: "map_of fs p = Some (File (Csv df)) \<Longrightarrow> read_csv fs p = Inr df"
  by (simp add: read_csv_def)

lemma fetch_movies_eq:
  "fetch_movies fs OUTPUT_DIR =
     (if map_of fs ''/opt/airflow/data/movies/movies.csv'' = Some Dir
      then (fs, Inl IsADirectoryError)
      else (AList.update ''/opt/airflow/data/movies/movies.csv'' (File (Csv movies_csv)) fs,
            Inr ''/opt/airflow/data/movies/movies.csv''))"
  by (simp add: fetch_movies_def movies_path write_dicts_dir write_dicts_ok [OF _ DictWriter_movies])

lemma fetch_ratings_eq:
  "fetch_ratings fs OUTPUT_DIR =
     (if map_of fs ''/opt/airflow/data/movies/ratings.csv'' = Some Dir
      then (fs, Inl IsADirectoryError)
      else (AList.update ''/opt/airflow/data/movies/ratings.csv'' (File (Csv ratings_csv)) fs,
            Inr ''/opt/airflow/data/movies/ratings.csv''))"
  by (simp add: fetch_ratings_def ratings_path write_dicts_dir write_dicts_ok [OF _ DictWriter_ratings])

lemma movies_branch_eq:
  "movies_branch fs =
     (if map_of fs ''/opt/airflow/data/movies/movies.csv'' = Some Dir
      then (fs, Inl IsADirectoryError)
      else if map_of fs ''/opt/airflow/data/movies/movies_transformed.csv'' = Some Dir
      then (AList.update ''/opt/airflow/data/movies/movies.csv'' (File (Csv movies_csv)) fs,
            Inl IsADirectoryError)
      else (AList.update ''/opt/airflow/data/movies/movies_transformed.csv''
              (File (Csv movies_transformed_csv))
              (AList.update ''/opt/airflow/data/movies/movies.csv'' (File (Csv movies_csv)) fs),
            Inr ''/opt/airflow/data/movies/movies_transformed.csv''))"
  by (simp add: movies_branch_def and_then_def fetch_movies_eq transform_movies_eq
      read_csv_def update_conv' add_decade_movies)

lemma ratings_branch_eq:
  "ratings_branch fs =
     (if map_of fs ''/opt/airflow/data/movies/ratings.csv'' = Some Dir
      then (fs, Inl IsADirectoryError)
      else if map_of fs ''/opt/airflow/data/movies/ratings_transformed.csv'' = Some Dir
      then (AList.update ''/opt/airflow/data/movies/ratings.csv'' (File (Csv ratings_csv)) fs,
            Inl IsADirectoryError)
      else (AList.update ''/opt/airflow/data/movies/ratings_transformed.csv''
              (File (Csv ratings_transformed_csv))
              (AList.update ''/opt/airflow/data/movies/ratings.csv'' (File (Csv ratings_csv)) fs),
            Inr ''/opt/airflow/data/movies/ratings_transformed.csv''))"
  by (simp add: ratings_branch_def and_then_def fetch_ratings_eq transform_ratings_eq
      read_csv_def update_conv' add_rating_category_ratings)


lemma movies_branch_map:
  "map_of (fst (movies_branch fs)) =
     (if map_of fs ''/opt/airflow/data/movies/movies.csv'' = Some Dir then map_of fs
      else if map_of fs ''/opt/airflow/data/movies/movies_transformed.csv'' = Some Dir
      then (map_of fs)(''/opt/airflow/data/movies/movies.csv'' \<mapsto> File (Csv movies_csv))
      else (map_of fs)(''/opt/airflow/data/movies/movies.csv'' \<mapsto> File (Csv movies_csv),
             ''/opt/airflow/data/movies/movies_transformed.csv'' \<mapsto>
               File (Csv movies_transformed_csv)))"
  by (simp add: movies_branch_eq update_conv')

lemma ratings_branch_map:
  "map_of (fst (ratings_branch fs)) =
     (if map_of fs ''/opt/airflow/data/movies/ratings.csv'' = Some Dir then map_of fs
      else if map_of fs ''/opt/airflow/data/movies/ratings_transformed.csv'' = Some Dir
      then (map_of fs)(''/opt/airflow/data/movies/ratings.csv'' \<mapsto> File (Csv ratings_csv))
      else (map_of fs)(''/opt/airflow/data/movies/ratings.csv'' \<mapsto> File (Csv ratings_csv),
             ''/opt/airflow/data/movies/ratings_transformed.csv'' \<mapsto>
               File (Csv ratings_transformed_csv)))"
  by (simp add: ratings_branch_eq update_conv')

lemma movies_branch_result:
  "snd (movies_branch fs) =
     (if map_of fs ''/opt/airflow/data/movies/movies.csv'' = Some Dir
         \<or> map_of fs ''/opt/airflow/data/movies/movies_transformed.csv'' = Some Dir
      then Inl IsADirectoryError
      else Inr ''/opt/airflow/data/movies/movies_transformed.csv'')"
  by (simp add: movies_branch_eq)

lemma ratings_branch_result:
  "snd (ratings_branch fs) =
     (if map_of fs ''/opt/airflow/data/movies/ratings.csv'' = Some Dir
         \<or> map_of fs ''/opt/airflow/data/movies/ratings_transformed.csv'' = Some Dir
      then Inl IsADirectoryError
      else Inr ''/opt/airflow/data/movies/ratings_transformed.csv'')"
  by (simp add: ratings_branch_eq)

lemma commute_files:
  "map_of (fst (ratings_branch (fst (movies_branch fs)))) =
   map_of (fst (movies_branch (fst (ratings_branch fs))))"
  by (rule ext) (simp add: ratings_branch_map movies_branch_map)

lemma commute_results:
  "snd (movies_branch (fst (ratings_branch fs))) = snd (movies_branch fs) \<and>
   snd (ratings_branch (fst (movies_branch fs))) = snd (ratings_branch fs)"
  by (simp add: movies_branch_result ratings_branch_result ratings_branch_map movies_branch_map)

text \<open>
  Claim C6. The movies branch (\<^verbatim>\<open>fetch_movies\<close>, then \<^verbatim>\<open>transform_movies\<close>) and the
  ratings branch (\<^verbatim>\<open>fetch_ratings\<close>, then \<^verbatim>\<open>transform_ratings\<close>) commute: run in
  either order from any file system, they leave the same file at every path and each
  branch has the same result. A branch changes no path but its own two, and what it
  does depends on nothing but what is stored at these two paths.
\<close>

theorem branches_commute:
  "map_of (fst (ratings_branch (fst (movies_branch fs)))) =
     map_of (fst (movies_branch (fst (ratings_branch fs)))) \<and>
   snd (movies_branch (fst (ratings_branch fs))) = snd (movies_branch fs) \<and>
   snd (ratings_branch (fst (movies_branch fs))) = snd (ratings_branch fs) \<and>
   (p \<noteq> ''/opt/airflow/data/movies/movies.csv'' \<and>
    p \<noteq> ''/opt/airflow/data/movies/movies_transformed.csv'' \<longrightarrow>
      map_of (fst (movies_branch fs)) p = map_of fs p) \<and>
   (p \<noteq> ''/opt/airflow/data/movies/ratings.csv'' \<and>
    p \<noteq> ''/opt/airflow/data/movies/ratings_transformed.csv'' \<longrightarrow>
      map_of (fst (ratings_branch fs)) p = map_of fs p) \<and>
   (map_of fs' ''/opt/airflow/data/movies/movies.csv'' =
      map_of fs ''/opt/airflow/data/movies/movies.csv'' \<and>
    map_of fs' ''/opt/airflow/data/movies/movies_transformed.csv'' =
      map_of fs ''/opt/airflow/data/movies/movies_transformed.csv'' \<longrightarrow>
      snd (movies_branch fs') = snd (movies_branch fs) \<and>
      map_of (fst (movies_branch fs')) ''/opt/airflow/data/movies/movies.csv'' =
        map_of (fst (movies_branch fs)) ''/opt/airflow/data/movies/movies.csv'' \<and>
      map_of (fst (movies_branch fs')) ''/opt/airflow/data/movies/movies_transformed.csv'' =
        map_of (fst (movies_branch fs)) ''/opt/airflow/data/movies/movies_transformed.csv'') \<and>
   (map_of fs' ''/opt/airflow/data/movies/ratings.csv'' =
      map_of fs ''/opt/airflow/data/movies/ratings.csv'' \<and>
    map_of fs' ''/opt/airflow/data/movies/ratings_transformed.csv'' =
      map_of fs ''/opt/airflow/data/movies/ratings_transformed.csv'' \<longrightarrow>
      snd (ratings_branch fs') = snd (ratings_branch fs) \<and>
      map_of (fst (ratings_branch fs')) ''/opt/airflow/data/movies/ratings.csv'' =
        map_of (fst (ratings_branch fs)) ''/opt/airflow/data/movies/ratings.csv'' \<and>
      map_of (fst (ratings_branch fs')) ''/opt/airflow/data/movies/ratings_transformed.csv'' =
        map_of (fst (ratings_branch fs)) ''/opt/airflow/data/movies/ratings_transformed.csv'')"
proof -
  have frame_m: "map_of (fst (movies_branch fs)) p = map_of fs p"
    if "p \<noteq> ''/opt/airflow/data/movies/movies.csv'' \<and>
        p \<noteq> ''/opt/airflow/data/movies/movies_transformed.csv''"
    using that by (simp add: movies_branch_map)
  have frame_r: "map_of (fst (ratings_branch fs)) p = map_of fs p"
    if "p \<noteq> ''/opt/airflow/data/movies/ratings.csv'' \<and>
        p \<noteq> ''/opt/airflow/data/movies/ratings_transformed.csv''"
    using that by (simp add: ratings_branch_map)
  have own_m: "snd (movies_branch fs') = snd (movies_branch fs) \<and>
      map_of (fst (movies_branch fs')) ''/opt/airflow/data/movies/movies.csv'' =
        map_of (fst (movies_branch fs)) ''/opt/airflow/data/movies/movies.csv'' \<and>
      map_of (fst (movies_branch fs')) ''/opt/airflow/data/movies/movies_transformed.csv'' =
        map_of (fst (movies_branch fs)) ''/opt/airflow/data/movies/movies_transformed.csv''"
    if "map_of fs' ''/opt/airflow/data/movies/movies.csv'' =
          map_of fs ''/opt/airflow/data/movies/movies.csv'' \<and>
        map_of fs' ''/opt/airflow/data/movies/movies_transformed.csv'' =
          map_of fs ''/opt/airflow/data/movies/movies_transformed.csv''"
    using that by (simp add: movies_branch_map movies_branch_result)
  have own_r: "snd (ratings_branch fs') = snd (ratings_branch fs) \<and>
      map_of (fst (ratings_branch fs')) ''/opt/airflow/data/movies/ratings.csv'' =
        map_of (fst (ratings_branch fs)) ''/opt/airflow/data/movies/ratings.csv'' \<and>
      map_of (fst (ratings_branch fs')) ''/opt/airflow/data/movies/ratings_transformed.csv'' =
        map_of (fst (ratings_branch fs)) ''/opt/airflow/data/movies/ratings_transformed.csv''"
    if "map_of fs' ''/opt/airflow/data/movies/ratings.csv'' =
          map_of fs ''/opt/airflow/data/movies/ratings.csv'' \<and>
        map_of fs' ''/opt/airflow/data/movies/ratings_transformed.csv'' =
          map_of fs ''/opt/airflow/data/movies/ratings_transformed.csv''"
    using that by (simp add: ratings_branch_map ratings_branch_result)
  from commute_files [of fs] commute_results [of fs] frame_m frame_r own_m own_r
  show ?thesis by blast
qed

theorem branches_commute_witness:
  "map_of (fst (ratings_branch (fst (movies_branch [(OUTPUT_DIR, Dir)])))) =
     map_of (fst (movies_branch (fst (ratings_branch [(OUTPUT_DIR, Dir)])))) \<and>
   snd (movies_branch (fst (ratings_branch [(OUTPUT_DIR, Dir)]))) =
     Inr ''/opt/airflow/data/movies/movies_transformed.csv'' \<and>
   snd (ratings_branch (fst (movies_branch [(OUTPUT_DIR, Dir)]))) =
     Inr ''/opt/airflow/data/movies/ratings_transformed.csv'' \<and>
   map_of (fst (movies_branch [(OUTPUT_DIR, Dir)])) OUTPUT_DIR = Some Dir \<and>
   map_of (fst (ratings_branch [(OUTPUT_DIR, Dir)])) OUTPUT_DIR = Some Dir \<and>
   snd (movies_branch []) = snd (movies_branch [(OUTPUT_DIR, Dir)]) \<and>
   snd (ratings_branch []) = snd (ratings_branch [(OUTPUT_DIR, Dir)])"
  using branches_commute [of "[(OUTPUT_DIR, Dir)]" OUTPUT_DIR "[]"]
  by (simp add: OUTPUT_DIR_def movies_branch_result ratings_branch_result)

section \<open>The fetch tasks\<close>

text \<open>
  Claim C10. Each fetch task, given an output directory that exists, writes its fixed
  table of five rows in overwrite mode: unless the path is a directory, the task returns
  the path, the file there holds the table whatever was stored before, and no other path
  changes. Running a fetch task on the file system that it left behind changes nothing
  and gives the same result. (The pipeline passes \<open>OUTPUT_DIR\<close>, which the script makes
  when it is loaded.)
\<close>

theorem fetch_fixed_idempotent:
  assumes "map_of fs d = Some Dir"
  shows
  "fetch_movies (fst (fetch_movies fs d)) d = fetch_movies fs d \<and>
   fetch_ratings (fst (fetch_ratings fs d)) d = fetch_ratings fs d \<and>
   (map_of fs (os_path_join d ''movies.csv'') \<noteq> Some Dir \<longrightarrow>
      snd (fetch_movies fs d) = Inr (os_path_join d ''movies.csv'') \<and>
      map_of (fst (fetch_movies fs d)) =
        (map_of fs)(os_path_join d ''movies.csv'' \<mapsto> File (Csv movies_csv))) \<and>
   (map_of fs (os_path_join d ''ratings.csv'') \<noteq> Some Dir \<longrightarrow>
      snd (fetch_ratings fs d) = Inr (os_path_join d ''ratings.csv'') \<and>
      map_of (fst (fetch_ratings fs d)) =
        (map_of fs)(os_path_join d ''ratings.csv'' \<mapsto> File (Csv ratings_csv))) \<and>
   length (rows movies_csv) = 5 \<and> length (rows ratings_csv) = 5"
proof -
  have m2: "fetch_movies (fst (fetch_movies fs d)) d = fetch_movies fs d"
    unfolding fetch_movies_def Let_def by (rule write_dicts_twice [OF DictWriter_movies])
  have r2: "fetch_ratings (fst (fetch_ratings fs d)) d = fetch_ratings fs d"
    unfolding fetch_ratings_def Let_def by (rule write_dicts_twice [OF DictWriter_ratings])
  have m1: "snd (fetch_movies fs d) = Inr (os_path_join d ''movies.csv'') \<and>
      map_of (fst (fetch_movies fs d)) =
        (map_of fs)(os_path_join d ''movies.csv'' \<mapsto> File (Csv movies_csv))"
    if "map_of fs (os_path_join d ''movies.csv'') \<noteq> Some Dir"
    using that
    by (simp add: fetch_movies_def write_dicts_ok [OF _ DictWriter_movies] update_conv')
  have r1: "snd (fetch_ratings fs d) = Inr (os_path_join d ''ratings.csv'') \<and>
      map_of (fst (fetch_ratings fs d)) =
        (map_of fs)(os_path_join d ''ratings.csv'' \<mapsto> File (Csv ratings_csv))"
    if "map_of fs (os_path_join d ''ratings.csv'') \<noteq> Some Dir"
    using that
    by (simp add: fetch_ratings_def write_dicts_ok [OF _ DictWriter_ratings] update_conv')
  have n: "length (rows movies_csv) = 5 \<and> length (rows ratings_csv) = 5"
    by (simp add: movies_csv_def ratings_csv_def)
  from m2 r2 m1 r1 n show ?thesis by blast
qed

theorem fetch_fixed_idempotent_witness:
  "map_of [(OUTPUT_DIR, Dir)] OUTPUT_DIR = Some Dir \<and>
   fetch_movies (fst (fetch_movies [(OUTPUT_DIR, Dir)] OUTPUT_DIR)) OUTPUT_DIR
     = fetch_movies [(OUTPUT_DIR, Dir)] OUTPUT_DIR \<and>
   snd (fetch_movies [(OUTPUT_DIR, Dir)] OUTPUT_DIR) = Inr ''/opt/airflow/data/movies/movies.csv'' \<and>
   map_of (fst (fetch_movies [(OUTPUT_DIR, Dir)] OUTPUT_DIR)) ''/opt/airflow/data/movies/movies.csv''
     = Some (File (Csv movies_csv)) \<and>
   snd (fetch_ratings [(OUTPUT_DIR, Dir)] OUTPUT_DIR) = Inr ''/opt/airflow/data/movies/ratings.csv'' \<and>
   map_of (fst (fetch_ratings [(OUTPUT_DIR, Dir)] OUTPUT_DIR)) ''/opt/airflow/data/movies/ratings.csv''
     = Some (File (Csv ratings_csv))"
  using fetch_fixed_idempotent [of "[(OUTPUT_DIR, Dir)]" OUTPUT_DIR]
  by (simp add: os_path_join_def OUTPUT_DIR_def)

section \<open>The transformations\<close>

lemma index_of_None: "index_of x xs = None \<longleftrightarrow> x \<notin> set xs"
  by (induction xs) auto

lemma index_of_Some: "index_of x xs = Some i \<Longrightarrow> i < length xs \<and> xs ! i = x"
  by (induction xs arbitrary: i) (auto split: if_splits)

lemma index_of_append_new: "x \<notin> set xs \<Longrightarrow> index_of x (xs @ [x]) = Some (length xs)"
  by (induction xs) auto

lemma rectangular_row: "rectangular df \<Longrightarrow> r \<in> set (rows df) \<Longrightarrow> length r = length (columns df)"
  by (simp add: rectangular_def list_all_iff)

lemma map_zip_snd: "length xs = length ys \<Longrightarrow> (\<And>x y. (x, y) \<in> set (zip xs ys) \<Longrightarrow> f x y = y) \<Longrightarrow> map (\<lambda>(x, y). f x y) (zip xs ys) = ys"
  by (induction xs ys rule: list_induct2) auto

lemma get_set_column:
  assumes "rectangular df" "length vs = length (rows df)"
  shows "get_column (set_column df name vs) name = Inr vs"
proof (cases "index_of name (columns df)")
  case None
  then have "name \<notin> set (columns df)" by (simp add: index_of_None)
  then have ix: "index_of name (columns df @ [name]) = Some (length (columns df))"
    by (rule index_of_append_new)
  have "map (\<lambda>(r, v). cell_at (r @ [v]) (length (columns df))) (zip (rows df) vs) = vs"
    using assms(2)
    by (intro map_zip_snd) (auto simp: cell_at_def nth_append dest!: set_zip_leftD rectangular_row [OF assms(1)])
  with None ix show ?thesis
    by (simp add: get_column_def set_column_def comp_def case_prod_unfold)
next
  case (Some i)
  then have i: "i < length (columns df)" by (simp add: index_of_Some)
  have "map (\<lambda>(r, v). cell_at (r[i := v]) i) (zip (rows df) vs) = vs"
    using assms(2) i
    by (intro map_zip_snd) (auto simp: cell_at_def dest!: set_zip_leftD rectangular_row [OF assms(1)])
  with Some show ?thesis
    by (simp add: get_column_def set_column_def comp_def case_prod_unfold)
qed

lemma wrap64_id:
  "- 9223372036854775808 \<le> x \<Longrightarrow> x < 9223372036854775808 \<Longrightarrow> wrap64 x = x"
  by (simp add: wrap64_def)

lemma wrap64_decade:
  assumes "- 9223372036854775800 \<le> y" "y < 9223372036854775808"
  shows "wrap64 (wrap64 (y div 10) * 10) = y div 10 * 10"
proof -
  have q: "- 9223372036854775808 \<le> y div 10 \<and> y div 10 < 9223372036854775808"
    using assms by presburger
  have d: "- 9223372036854775808 \<le> y div 10 * 10 \<and> y div 10 * 10 < 9223372036854775808"
    using assms by presburger
  from q have "wrap64 (y div 10) = y div 10" by (simp add: wrap64_id)
  with d show ?thesis by (simp add: wrap64_id)
qed

lemma decade_series:
  assumes "list_all exact_year ys"
  shows "\<exists>q. series_floordiv ys 10 = Inr q \<and> series_mul q 10 = map year_to_decade ys"
proof -
  have "\<not> is_str c" if "exact_year c" for c
    using that by (cases c) simp_all
  with assms have s: "\<not> list_ex is_str ys"
    by (auto simp: list_ex_iff list_all_iff)
  have "series_mul (map (\<lambda>c. case c of IntV y \<Rightarrow> IntV (wrap64 (y div 10))
                  | FloatV y \<Rightarrow> FloatV (of_int \<lfloor>y / of_int 10\<rfloor>)
                  | _ \<Rightarrow> c) ys) 10 = map year_to_decade ys"
    using assms by (auto simp: series_mul_def list_all_iff wrap64_decade split: cell.splits)
  with s show ?thesis by (simp add: series_floordiv_def)
qed

lemma cut_bucket:
  "\<not> list_ex is_str rs \<Longrightarrow>
   cut rs [0, 7, 8.5, 10] [''Low'', ''Medium'', ''High''] = Inr (map right_closed_bucket rs)"
  by (auto simp: cut_def right_closed_bucket_def list_ex_iff split: cell.splits)


lemma add_decade_numeric:
  assumes "index_of ''year'' (columns df) = Some i"
    and "list_all exact_year (map (\<lambda>r. cell_at r i) (rows df))"
  shows "add_decade df =
           Inr (set_column df ''decade'' (map (\<lambda>r. year_to_decade (cell_at r i)) (rows df)))"
proof -
  obtain q where "series_floordiv (map (\<lambda>r. cell_at r i) (rows df)) 10 = Inr q"
    and "series_mul q 10 = map year_to_decade (map (\<lambda>r. cell_at r i) (rows df))"
    using decade_series [OF assms(2)] by blast
  with assms(1) show ?thesis
    by (simp add: add_decade_def get_column_def comp_def)
qed

lemma set_column_new:
  "name \<notin> set (columns df) \<Longrightarrow>
   set_column df name (map f (rows df)) =
     \<lparr>columns = columns df @ [name], rows = map (\<lambda>r. r @ [f r]) (rows df)\<rparr>"
  by (simp add: set_column_def index_of_None [THEN iffD2] zip_map2 zip_same_conv_map comp_def)

lemma set_column_old:
  "index_of name (columns df) = Some j \<Longrightarrow>
   set_column df name (map f (rows df)) =
     \<lparr>columns = columns df, rows = map (\<lambda>r. r[j := f r]) (rows df)\<rparr>"
  by (simp add: set_column_def zip_map2 zip_same_conv_map comp_def)

lemma round_down_int: "\<exists>d. year_to_decade (IntV y) = IntV d \<and> 10 dvd d \<and> d \<le> y \<and> y < d + 10"
proof -
  have "(y div 10) * 10 \<le> y \<and> y < (y div 10) * 10 + 10" by presburger
  then show ?thesis by simp
qed

lemma round_down_float:
  "\<exists>n::int. year_to_decade (FloatV x) = FloatV (of_int n * 10) \<and>
     of_int n * 10 \<le> x \<and> x < of_int n * 10 + 10"
proof -
  have "of_int \<lfloor>x / 10\<rfloor> \<le> x / 10" "x / 10 < of_int \<lfloor>x / 10\<rfloor> + 1"
    by linarith+
  then have "of_int \<lfloor>x / 10\<rfloor> * 10 \<le> x \<and> x < of_int \<lfloor>x / 10\<rfloor> * 10 + 10"
    by argo
  then show ?thesis by auto
qed

text \<open>
  Claim C4, as amended. Let the input CSV have a numeric year column whose values are
  64-bit integers other than the eight smallest, floats below \<open>2\<^sup>5\<^sup>3\<close> in magnitude or
  missing values, and let the output path be no directory. If the input has no column
  named \<^verbatim>\<open>decade\<close>, \<^verbatim>\<open>transform_movies\<close> writes the input rows, each extended by
  one cell, under the input header extended by \<^verbatim>\<open>decade\<close>; the new cell is
  \<open>(year // 10) * 10\<close>, the year rounded down to a multiple of ten (missing for a missing
  year). If the input has a column named \<^verbatim>\<open>decade\<close>, that column is overwritten where
  it stands and no column is added.
\<close>

theorem transform_movies_decade:
  assumes "read_csv fs p = Inr df"
    and "index_of ''year'' (columns df) = Some i"
    and "list_all exact_year (map (\<lambda>r. cell_at r i) (rows df))"
    and "map_of fs ''/opt/airflow/data/movies/movies_transformed.csv'' \<noteq> Some Dir"
  shows
    "(''decade'' \<notin> set (columns df) \<longrightarrow>
        transform_movies fs p =
          (AList.update ''/opt/airflow/data/movies/movies_transformed.csv''
             (File (Csv \<lparr>columns = columns df @ [''decade''],
                          rows = map (\<lambda>r. r @ [year_to_decade (cell_at r i)]) (rows df)\<rparr>)) fs,
           Inr ''/opt/airflow/data/movies/movies_transformed.csv'')) \<and>
     (\<forall>j. index_of ''decade'' (columns df) = Some j \<longrightarrow>
        transform_movies fs p =
          (AList.update ''/opt/airflow/data/movies/movies_transformed.csv''
             (File (Csv \<lparr>columns = columns df,
                          rows = map (\<lambda>r. r[j := year_to_decade (cell_at r i)]) (rows df)\<rparr>)) fs,
           Inr ''/opt/airflow/data/movies/movies_transformed.csv'')) \<and>
     (\<forall>y. \<exists>d. year_to_decade (IntV y) = IntV d \<and> 10 dvd d \<and> d \<le> y \<and> y < d + 10) \<and>
     (\<forall>x. \<exists>n::int. year_to_decade (FloatV x) = FloatV (of_int n * 10) \<and>
        of_int n * 10 \<le> x \<and> x < of_int n * 10 + 10)"
proof -
  have t: "transform_movies fs p =
      (AList.update ''/opt/airflow/data/movies/movies_transformed.csv''
         (File (Csv (set_column df ''decade''
            (map (\<lambda>r. year_to_decade (cell_at r i)) (rows df))))) fs,
       Inr ''/opt/airflow/data/movies/movies_transformed.csv'')"
    using assms(1,4) by (simp add: transform_movies_eq add_decade_numeric [OF assms(2,3)])
  have new: "transform_movies fs p =
          (AList.update ''/opt/airflow/data/movies/movies_transformed.csv''
             (File (Csv \<lparr>columns = columns df @ [''decade''],
                          rows = map (\<lambda>r. r @ [year_to_decade (cell_at r i)]) (rows df)\<rparr>)) fs,
           Inr ''/opt/airflow/data/movies/movies_transformed.csv'')"
    if "''decade'' \<notin> set (columns df)"
    using t set_column_new [OF that] by simp
  have old: "transform_movies fs p =
          (AList.update ''/opt/airflow/data/movies/movies_transformed.csv''
             (File (Csv \<lparr>columns = columns df,
                          rows = map (\<lambda>r. r[j := year_to_decade (cell_at r i)]) (rows df)\<rparr>)) fs,
           Inr ''/opt/airflow/data/movies/movies_transformed.csv'')"
    if "index_of ''decade'' (columns df) = Some j" for j
    using t set_column_old [OF that] by simp
  from new old round_down_int round_down_float show ?thesis by blast
qed

theorem transform_movies_decade_witness:
  "transform_movies [(''/opt/airflow/data/movies/movies.csv'', File (Csv movies_csv))]
       ''/opt/airflow/data/movies/movies.csv'' =
     ([(''/opt/airflow/data/movies/movies.csv'', File (Csv movies_csv)),
       (''/opt/airflow/data/movies/movies_transformed.csv'', File (Csv movies_transformed_csv))],
      Inr ''/opt/airflow/data/movies/movies_transformed.csv'') \<and>
   transform_movies
       [(''/opt/airflow/data/movies/movies.csv'',
         File (Csv \<lparr>columns = [''decade'', ''year''],
                     rows = [[StrV ''old'', FloatV 1999.5], [IntV 7, NaN]]\<rparr>))]
       ''/opt/airflow/data/movies/movies.csv'' =
     ([(''/opt/airflow/data/movies/movies.csv'',
        File (Csv \<lparr>columns = [''decade'', ''year''],
                    rows = [[StrV ''old'', FloatV 1999.5], [IntV 7, NaN]]\<rparr>)),
       (''/opt/airflow/data/movies/movies_transformed.csv'',
        File (Csv \<lparr>columns = [''decade'', ''year''],
                    rows = [[FloatV 1990, FloatV 1999.5], [NaN, NaN]]\<rparr>))],
      Inr ''/opt/airflow/data/movies/movies_transformed.csv'')"
  using transform_movies_decade
    [of "[(''/opt/airflow/data/movies/movies.csv'', File (Csv movies_csv))]"
        "''/opt/airflow/data/movies/movies.csv''" movies_csv 3]
    transform_movies_decade
    [of "[(''/opt/airflow/data/movies/movies.csv'',
         File (Csv \<lparr>columns = [''decade'', ''year''],
                     rows = [[StrV ''old'', FloatV 1999.5], [IntV 7, NaN]]\<rparr>))]"
        "''/opt/airflow/data/movies/movies.csv''"
        "\<lparr>columns = [''decade'', ''year''],
                     rows = [[StrV ''old'', FloatV 1999.5], [IntV 7, NaN]]\<rparr>" 1]
  by (simp add: read_csv_def movies_csv_def cell_at_def movies_transformed_csv_def)

text \<open>
  Claim C4 as it is stated fails on an input that has a \<^verbatim>\<open>decade\<close> column already: the
  output has the two columns of the input, not three, and the old value 1999 is replaced
  by 2010. It also fails on the smallest 64-bit year, where the product wraps around:
  the cell written is 9223372036854775806, which is no multiple of ten and is not
  \<open>(year // 10) * 10 = -9223372036854775810\<close>.
\<close>

theorem transform_movies_decade_counterexample:
  "read_csv [(''/opt/airflow/data/movies/movies.csv'',
              File (Csv \<lparr>columns = [''year'', ''decade''], rows = [[IntV 2017, IntV 1999]]\<rparr>))]
      ''/opt/airflow/data/movies/movies.csv'' =
     Inr \<lparr>columns = [''year'', ''decade''], rows = [[IntV 2017, IntV 1999]]\<rparr> \<and>
   map_of (fst (transform_movies
        [(''/opt/airflow/data/movies/movies.csv'',
          File (Csv \<lparr>columns = [''year'', ''decade''], rows = [[IntV 2017, IntV 1999]]\<rparr>))]
        ''/opt/airflow/data/movies/movies.csv''))
      ''/opt/airflow/data/movies/movies_transformed.csv'' =
     Some (File (Csv \<lparr>columns = [''year'', ''decade''], rows = [[IntV 2017, IntV 2010]]\<rparr>)) \<and>
   map_of (fst (transform_movies
        [(''/opt/airflow/data/movies/movies.csv'',
          File (Csv \<lparr>columns = [''year'', ''decade''], rows = [[IntV 2017, IntV 1999]]\<rparr>))]
        ''/opt/airflow/data/movies/movies.csv''))
      ''/opt/airflow/data/movies/movies_transformed.csv'' \<noteq>
     Some (File (Csv \<lparr>columns = [''year'', ''decade'', ''decade''],
                        rows = [[IntV 2017, IntV 1999, IntV 2010]]\<rparr>)) \<and>
   map_of (fst (transform_movies
        [(''/opt/airflow/data/movies/movies.csv'',
          File (Csv \<lparr>columns = [''year''], rows = [[IntV (- 9223372036854775808)]]\<rparr>))]
        ''/opt/airflow/data/movies/movies.csv''))
      ''/opt/airflow/data/movies/movies_transformed.csv'' =
     Some (File (Csv \<lparr>columns = [''year'', ''decade''],
                        rows = [[IntV (- 9223372036854775808), IntV 9223372036854775806]]\<rparr>)) \<and>
   year_to_decade (IntV (- 9223372036854775808)) = IntV (- 9223372036854775810)"
  by (simp add: transform_movies_eq read_csv_def add_decade_def get_column_def cell_at_def
      series_floordiv_def series_mul_def wrap64_def set_column_def)

text \<open>
  Claim C8. For a rating column without strings, \<^verbatim>\<open>transform_ratings\<close> raises nothing
  and writes a table whose column \<^verbatim>\<open>rating_category\<close> holds, row by row, the bucket
  of the rating: Low for \<open>0 < r \<le> 7\<close>, Medium for \<open>7 < r \<le> 8.5\<close>, High for
  \<open>8.5 < r \<le> 10\<close>, and a missing value for a rating that is at most 0 or above 10.
\<close>

theorem transform_ratings_buckets:
  assumes "read_csv fs p = Inr df"
    and "rectangular df"
    and "index_of ''rating'' (columns df) = Some i"
    and "\<not> list_ex is_str (map (\<lambda>r. cell_at r i) (rows df))"
    and "map_of fs ''/opt/airflow/data/movies/ratings_transformed.csv'' \<noteq> Some Dir"
  shows
    "(\<exists>df'. transform_ratings fs p =
        (AList.update ''/opt/airflow/data/movies/ratings_transformed.csv'' (File (Csv df')) fs,
         Inr ''/opt/airflow/data/movies/ratings_transformed.csv'') \<and>
      get_column df' ''rating_category'' =
        Inr (map (\<lambda>r. right_closed_bucket (cell_at r i)) (rows df))) \<and>
     (\<forall>r. (0 < r \<and> r \<le> 7 \<longrightarrow> right_closed_bucket (FloatV r) = StrV ''Low'') \<and>
          (7 < r \<and> r \<le> 8.5 \<longrightarrow> right_closed_bucket (FloatV r) = StrV ''Medium'') \<and>
          (8.5 < r \<and> r \<le> 10 \<longrightarrow> right_closed_bucket (FloatV r) = StrV ''High'') \<and>
          (r \<le> 0 \<or> 10 < r \<longrightarrow> right_closed_bucket (FloatV r) = NaN)) \<and>
     (\<forall>n. right_closed_bucket (IntV n) = right_closed_bucket (FloatV (of_int n)))"
proof -
  let ?cat = "map (\<lambda>r. right_closed_bucket (cell_at r i)) (rows df)"
  have "add_rating_category df = Inr (set_column df ''rating_category'' ?cat)"
    using assms(3) cut_bucket [OF assms(4)]
    by (simp add: add_rating_category_def get_column_def comp_def)
  then have "transform_ratings fs p =
        (AList.update ''/opt/airflow/data/movies/ratings_transformed.csv''
           (File (Csv (set_column df ''rating_category'' ?cat))) fs,
         Inr ''/opt/airflow/data/movies/ratings_transformed.csv'')"
    using assms(1,5) by (simp add: transform_ratings_eq)
  moreover have "get_column (set_column df ''rating_category'' ?cat) ''rating_category'' = Inr ?cat"
    by (rule get_set_column [OF assms(2)]) simp
  ultimately have written: "\<exists>df'. transform_ratings fs p =
        (AList.update ''/opt/airflow/data/movies/ratings_transformed.csv'' (File (Csv df')) fs,
         Inr ''/opt/airflow/data/movies/ratings_transformed.csv'') \<and>
      get_column df' ''rating_category'' = Inr ?cat"
    by blast
  have buckets: "(0 < r \<and> r \<le> 7 \<longrightarrow> right_closed_bucket (FloatV r) = StrV ''Low'') \<and>
          (7 < r \<and> r \<le> 8.5 \<longrightarrow> right_closed_bucket (FloatV r) = StrV ''Medium'') \<and>
          (8.5 < r \<and> r \<le> 10 \<longrightarrow> right_closed_bucket (FloatV r) = StrV ''High'') \<and>
          (r \<le> 0 \<or> 10 < r \<longrightarrow> right_closed_bucket (FloatV r) = NaN)" for r
    by (simp add: right_closed_bucket_def)
  have ints: "right_closed_bucket (IntV n) = right_closed_bucket (FloatV (of_int n))" for n
    by (simp add: right_closed_bucket_def)
  from written buckets ints show ?thesis by blast
qed

theorem transform_ratings_buckets_witness:
  "\<exists>df'. transform_ratings
       [(''/opt/airflow/data/movies/ratings.csv'',
         File (Csv \<lparr>columns = [''movie_id'', ''rating''],
                     rows = [[IntV 1, FloatV (-1)], [IntV 2, FloatV 0], [IntV 3, FloatV 7],
                             [IntV 4, FloatV 7.5], [IntV 5, FloatV 8.5], [IntV 6, FloatV 8.8],
                             [IntV 7, FloatV 10], [IntV 8, FloatV 10.5], [IntV 9, NaN]]\<rparr>))]
       ''/opt/airflow/data/movies/ratings.csv'' =
     (AList.update ''/opt/airflow/data/movies/ratings_transformed.csv'' (File (Csv df'))
        [(''/opt/airflow/data/movies/ratings.csv'',
          File (Csv \<lparr>columns = [''movie_id'', ''rating''],
                      rows = [[IntV 1, FloatV (-1)], [IntV 2, FloatV 0], [IntV 3, FloatV 7],
                              [IntV 4, FloatV 7.5], [IntV 5, FloatV 8.5], [IntV 6, FloatV 8.8],
                              [IntV 7, FloatV 10], [IntV 8, FloatV 10.5], [IntV 9, NaN]]\<rparr>))],
      Inr ''/opt/airflow/data/movies/ratings_transformed.csv'') \<and>
     get_column df' ''rating_category'' =
       Inr [NaN, NaN, StrV ''Low'', StrV ''Medium'', StrV ''Medium'', StrV ''High'',
            StrV ''High'', NaN, NaN]"
  using transform_ratings_buckets
    [of "[(''/opt/airflow/data/movies/ratings.csv'',
         File (Csv \<lparr>columns = [''movie_id'', ''rating''],
                     rows = [[IntV 1, FloatV (-1)], [IntV 2, FloatV 0], [IntV 3, FloatV 7],
                             [IntV 4, FloatV 7.5], [IntV 5, FloatV 8.5], [IntV 6, FloatV 8.8],
                             [IntV 7, FloatV 10], [IntV 8, FloatV 10.5], [IntV 9, NaN]]\<rparr>))]"
        "''/opt/airflow/data/movies/ratings.csv''"
        "\<lparr>columns = [''movie_id'', ''rating''],
                     rows = [[IntV 1, FloatV (-1)], [IntV 2, FloatV 0], [IntV 3, FloatV 7],
                             [IntV 4, FloatV 7.5], [IntV 5, FloatV 8.5], [IntV 6, FloatV 8.8],
                             [IntV 7, FloatV 10], [IntV 8, FloatV 10.5], [IntV 9, NaN]]\<rparr>" 1]
  by (simp add: read_csv_def rectangular_def cell_at_def right_closed_bucket_def)

section \<open>The merge\<close>












section \<open>The load\<close>

lemma length_iterrows: "length (iterrows df) = length (rows df)"
  by (simp add: iterrows_def Let_def)

lemma iterrows_row_length: "r \<in> set (iterrows df) \<Longrightarrow> length r = length (columns df)"
  by (auto simp: iterrows_def Let_def split: if_splits)



lemma insert_rows_ok:
  assumes "tables db (s, t) = Some tb" "cols \<noteq> []" "distinct cols"
    "set cols \<subseteq> set (map fst (tcolumns tb))"
    "list_all (\<lambda>vals. length vals = length cols) vs"
  shows "insert_rows db (InsertInto s t cols) vs =
     Inr (db\<lparr>tables := (tables db)((s, t) \<mapsto>
            tb\<lparr>trows := trows tb @
               map (\<lambda>vals. map (map_of (zip cols vals)) (map fst (tcolumns tb))) vs\<rparr>)\<rparr>)"
  using assms
proof (induction vs arbitrary: db tb)
  case Nil
  then show ?case by (simp add: map_upd_triv)
next
  case (Cons v vs)
  have f: "filter (\<lambda>c. c \<notin> fst ` set (tcolumns tb)) cols = []"
    using Cons.prems(4) by (auto simp: filter_empty_conv)
  let ?tb1 = "tb\<lparr>trows := trows tb @ [map (map_of (zip cols v)) (map fst (tcolumns tb))]\<rparr>"
  let ?db1 = "db\<lparr>tables := (tables db)((s, t) \<mapsto> ?tb1)\<rparr>"
  have e: "execute db (InsertInto s t cols v) = Inr ?db1"
    using Cons.prems f by simp
  have step: "insert_rows db (InsertInto s t cols) (v # vs) =
      insert_rows ?db1 (InsertInto s t cols) vs"
    by (simp only: insert_rows.simps e sum.case)
  have "insert_rows ?db1 (InsertInto s t cols) vs =
     Inr (?db1\<lparr>tables := (tables ?db1)((s, t) \<mapsto>
            ?tb1\<lparr>trows := trows ?tb1 @
               map (\<lambda>vals. map (map_of (zip cols vals)) (map fst (tcolumns ?tb1))) vs\<rparr>)\<rparr>)"
    using Cons.prems by (intro Cons.IH) simp_all
  also have "?db1\<lparr>tables := (tables ?db1)((s, t) \<mapsto>
            ?tb1\<lparr>trows := trows ?tb1 @
               map (\<lambda>vals. map (map_of (zip cols vals)) (map fst (tcolumns ?tb1))) vs\<rparr>)\<rparr> =
     db\<lparr>tables := (tables db)((s, t) \<mapsto>
            tb\<lparr>trows := trows tb @
               map (\<lambda>vals. map (map_of (zip cols vals)) (map fst (tcolumns tb))) (v # vs)\<rparr>)\<rparr>"
    by simp
  finally show ?case by (simp only: step)
qed


lemma insert_rows_execute_all: "insert_rows db ins vs = execute_all db (map ins vs)"
  by (induction vs arbitrary: db) (auto split: sum.splits)

lemma load_to_postgres_body:
  assumes "read_csv fs p = Inr df" "list_all (sql_column reserved) (columns df)"
  shows "load_to_postgres py_str reserved unparsed db fs p =
     (case execute db (CreateSchemaIfNotExists SCHEMA) of
        Inl e \<Rightarrow> (db, Inl e)
      | Inr db1 \<Rightarrow>
          (case execute db1 (CreateTableIfNotExists SCHEMA TARGET_TABLE
                  (map (\<lambda>col. (col, ''TEXT'')) (map fold_name (columns df)))) of
             Inl e \<Rightarrow> (db, Inl e)
           | Inr db2 \<Rightarrow>
               (case insert_rows db2 (InsertInto SCHEMA TARGET_TABLE (map fold_name (columns df)))
                       (map (map py_str) (iterrows df)) of
                  Inl e \<Rightarrow> (db, Inl e)
                | Inr db3 \<Rightarrow> (db3, Inr (length (rows df))))))"
  using assms by (simp add: load_to_postgres_def Let_def del: execute.simps)

lemma load_to_postgres_eq:
  assumes "read_csv fs p = Inr df" "list_all (sql_column reserved) (columns df)"
  shows "load_to_postgres py_str reserved unparsed db fs p =
     (case execute_all db (load_statements py_str df) of
        Inl e \<Rightarrow> (db, Inl e)
      | Inr db' \<Rightarrow> (db', Inr (length (rows df))))"
  unfolding load_to_postgres_body [OF assms]
  by (simp add: load_statements_def insert_rows_execute_all comp_def split: sum.splits)

lemma execute_all_inserts_count:
  assumes "execute_all db (map (\<lambda>v. InsertInto s t cols (f v)) vs) = Inr db'"
  shows "row_count db' (s, t) = row_count db (s, t) + length vs \<and>
         (\<forall>k. k \<noteq> (s, t) \<longrightarrow> tables db' k = tables db k) \<and> schemas db' = schemas db"
  using assms
proof (induction vs arbitrary: db)
  case Nil
  then show ?case by simp
next
  case (Cons v vs)
  from Cons.prems obtain db1 where e: "execute db (InsertInto s t cols (f v)) = Inr db1"
    and r: "execute_all db1 (map (\<lambda>v. InsertInto s t cols (f v)) vs) = Inr db'"
    by (auto split: sum.splits)
  from e have 1: "row_count db1 (s, t) = row_count db (s, t) + 1 \<and>
      (\<forall>k. k \<noteq> (s, t) \<longrightarrow> tables db1 k = tables db k) \<and> schemas db1 = schemas db"
    by (auto simp: row_count_def split: if_splits option.splits list.splits)
  from Cons.IH [OF r] 1 show ?case by simp
qed

lemma map_of_zip_self:
  "distinct xs \<Longrightarrow> length xs = length ys \<Longrightarrow> map (map_of (zip xs ys)) xs = map Some ys"
proof (induction xs arbitrary: ys)
  case Nil
  then show ?case by simp
next
  case (Cons x xs)
  then obtain y ys' where ys: "ys = y # ys'" by (cases ys) auto
  with Cons.prems have "map (map_of (zip xs ys')) xs = map Some ys'"
    by (intro Cons.IH) auto
  moreover have "map (\<lambda>c. if c = x then Some y else map_of (zip xs ys') c) xs =
      map (map_of (zip xs ys')) xs"
    using Cons.prems by (intro map_cong) auto
  ultimately show ?case using ys by (simp add: fun_upd_def)
qed


lemma run_new:
  assumes "names \<noteq> []" "distinct names"
    and "list_all (\<lambda>vals. length vals = length names) vs"
    and "tables db (s, t) = None"
  shows "(case execute db (CreateSchemaIfNotExists s) of
        Inl e \<Rightarrow> (db, Inl e)
      | Inr db1 \<Rightarrow>
          (case execute db1 (CreateTableIfNotExists s t (map (\<lambda>col. (col, ''TEXT'')) names)) of
             Inl e \<Rightarrow> (db, Inl e)
           | Inr db2 \<Rightarrow>
               (case insert_rows db2 (InsertInto s t names) vs of
                  Inl e \<Rightarrow> (db, Inl e)
                | Inr db3 \<Rightarrow> (db3, Inr n)))) =
     (db\<lparr>schemas := insert s (schemas db),
          tables := (tables db)((s, t) \<mapsto>
            \<lparr>tcolumns = map (\<lambda>c. (c, ''TEXT'')) names, trows = map (map Some) vs\<rparr>)\<rparr>,
      Inr n)"
proof -
  let ?tb = "\<lparr>tcolumns = map (\<lambda>c. (c, ''TEXT'')) names, trows = []\<rparr>"
  let ?db2 = "db\<lparr>schemas := insert s (schemas db),
                  tables := (tables db)((s, t) \<mapsto> ?tb)\<rparr>"
  have names: "map fst (tcolumns ?tb) = names" by (simp add: comp_def)
  have ins: "insert_rows ?db2 (InsertInto s t names) vs =
      Inr (?db2\<lparr>tables := (tables ?db2)((s, t) \<mapsto>
            ?tb\<lparr>trows := trows ?tb @
               map (\<lambda>vals. map (map_of (zip names vals)) (map fst (tcolumns ?tb))) vs\<rparr>)\<rparr>)"
    using assms(1,2,3) by (intro insert_rows_ok) (simp_all add: comp_def)
  have vals: "map (\<lambda>vals. map (map_of (zip names vals)) names) vs = map (map Some) vs"
    using assms(2,3) by (auto simp: map_of_zip_self list_all_iff)
  have ins2: "insert_rows ?db2 (InsertInto s t names) vs =
      Inr (?db2\<lparr>tables := (tables ?db2)((s, t) \<mapsto>
            ?tb\<lparr>trows := trows ?tb @ map (map Some) vs\<rparr>)\<rparr>)"
    using ins unfolding names vals .
  show ?thesis
    using assms(2,4) ins2 by (simp add: comp_def)
qed

lemma run_existing:
  assumes "names \<noteq> []" "distinct names"
    and "list_all (\<lambda>vals. length vals = length names) vs"
    and "tables db (s, t) = Some tb"
    and "set names \<subseteq> set (map fst (tcolumns tb))"
  shows "(case execute db (CreateSchemaIfNotExists s) of
        Inl e \<Rightarrow> (db, Inl e)
      | Inr db1 \<Rightarrow>
          (case execute db1 (CreateTableIfNotExists s t (map (\<lambda>col. (col, ''TEXT'')) names)) of
             Inl e \<Rightarrow> (db, Inl e)
           | Inr db2 \<Rightarrow>
               (case insert_rows db2 (InsertInto s t names) vs of
                  Inl e \<Rightarrow> (db, Inl e)
                | Inr db3 \<Rightarrow> (db3, Inr n)))) =
     (db\<lparr>schemas := insert s (schemas db),
          tables := (tables db)((s, t) \<mapsto>
            tb\<lparr>trows := trows tb @
               map (\<lambda>vals. map (map_of (zip names vals)) (map fst (tcolumns tb))) vs\<rparr>)\<rparr>,
      Inr n)"
proof -
  let ?db2 = "db\<lparr>schemas := insert s (schemas db)\<rparr>"
  have ins: "insert_rows ?db2 (InsertInto s t names) vs =
      Inr (?db2\<lparr>tables := (tables ?db2)((s, t) \<mapsto>
            tb\<lparr>trows := trows tb @
               map (\<lambda>vals. map (map_of (zip names vals)) (map fst (tcolumns tb))) vs\<rparr>)\<rparr>)"
    using assms by (intro insert_rows_ok) simp_all
  show ?thesis
    using assms(4) ins by simp
qed

lemma values_lengths:
  "list_all (\<lambda>vals. length vals = length (map fold_name (columns df)))
     (map (map py_str) (iterrows df))"
  by (simp add: list_all_iff iterrows_row_length)

lemma load_new:
  assumes "read_csv fs p = Inr df" "list_all (sql_column reserved) (columns df)"
    and "columns df \<noteq> []" "distinct (map fold_name (columns df))"
    and "tables db (SCHEMA, TARGET_TABLE) = None"
  shows "load_to_postgres py_str reserved unparsed db fs p =
     (db\<lparr>schemas := insert SCHEMA (schemas db),
               tables := (tables db)((SCHEMA, TARGET_TABLE) \<mapsto>
                 \<lparr>tcolumns = map (\<lambda>c. (fold_name c, ''TEXT'')) (columns df),
                  trows = map (map (Some \<circ> py_str)) (iterrows df)\<rparr>)\<rparr>,
           Inr (length (rows df)))"
proof -
  have ne: "map fold_name (columns df) \<noteq> []" using assms(3) by simp
  show ?thesis
    unfolding load_to_postgres_body [OF assms(1,2)]
      run_new [OF ne assms(4) values_lengths assms(5)]
    by (simp add: comp_def)
qed

lemma load_existing:
  assumes "read_csv fs p = Inr df" "list_all (sql_column reserved) (columns df)"
    and "columns df \<noteq> []" "distinct (map fold_name (columns df))"
    and "tables db (SCHEMA, TARGET_TABLE) = Some tb"
    and "set (map fold_name (columns df)) \<subseteq> set (map fst (tcolumns tb))"
  shows "load_to_postgres py_str reserved unparsed db fs p =
     (db\<lparr>schemas := insert SCHEMA (schemas db),
               tables := (tables db)((SCHEMA, TARGET_TABLE) \<mapsto>
                 tb\<lparr>trows := trows tb @
                    map (\<lambda>row. map (map_of (zip (map fold_name (columns df)) (map py_str row)))
                                 (map fst (tcolumns tb)))
                      (iterrows df)\<rparr>)\<rparr>,
           Inr (length (rows df)))"
proof -
  have ne: "map fold_name (columns df) \<noteq> []" using assms(3) by simp
  show ?thesis
    unfolding load_to_postgres_body [OF assms(1,2)]
      run_existing [OF ne assms(4) values_lengths assms(5,6)]
    by (simp add: comp_def)
qed



lemma load_count:
  assumes "read_csv fs p = Inr df" "list_all (sql_column reserved) (columns df)"
    and "load_to_postgres py_str reserved unparsed db fs p = (db', Inr n)"
  shows "n = length (rows df) \<and>
      execute_all db (load_statements py_str df) = Inr db' \<and>
      row_count db' (SCHEMA, TARGET_TABLE) = row_count db (SCHEMA, TARGET_TABLE) + n \<and>
      (\<forall>k. k \<noteq> (SCHEMA, TARGET_TABLE) \<longrightarrow> tables db' k = tables db k) \<and>
      schemas db' = insert SCHEMA (schemas db)"
proof -
  from assms(3) have n: "n = length (rows df)"
    and all: "execute_all db (load_statements py_str df) = Inr db'"
    unfolding load_to_postgres_eq [OF assms(1,2)] by (auto split: sum.splits)
  let ?db1 = "db\<lparr>schemas := insert SCHEMA (schemas db)\<rparr>"
  from all obtain db2 where
    2: "execute ?db1 (CreateTableIfNotExists SCHEMA TARGET_TABLE
             (map (\<lambda>col. (col, ''TEXT'')) (map fold_name (columns df)))) = Inr db2" and
    3: "execute_all db2 (map (\<lambda>row. InsertInto SCHEMA TARGET_TABLE (map fold_name (columns df))
             (map py_str row)) (iterrows df)) = Inr db'"
    by (auto simp: load_statements_def split: sum.splits)
  from 2 have c2: "row_count db2 (SCHEMA, TARGET_TABLE) = row_count db (SCHEMA, TARGET_TABLE) \<and>
      (\<forall>k. k \<noteq> (SCHEMA, TARGET_TABLE) \<longrightarrow> tables db2 k = tables db k) \<and>
      schemas db2 = insert SCHEMA (schemas db)"
    by (auto simp: row_count_def split: if_splits option.splits)
  from execute_all_inserts_count [OF 3] c2 n all show ?thesis
    by (auto simp: length_iterrows)
qed

lemma load_twice:
  assumes "read_csv fs p = Inr df" "list_all (sql_column reserved) (columns df)"
    and "columns df \<noteq> []" "distinct (map fold_name (columns df))"
    and "tables db (SCHEMA, TARGET_TABLE) = None"
  shows "snd (load_to_postgres py_str reserved unparsed
                (fst (load_to_postgres py_str reserved unparsed db fs p)) fs p) =
           Inr (length (rows df)) \<and>
         row_count (fst (load_to_postgres py_str reserved unparsed db fs p))
           (SCHEMA, TARGET_TABLE) = length (rows df) \<and>
         row_count (fst (load_to_postgres py_str reserved unparsed
                (fst (load_to_postgres py_str reserved unparsed db fs p)) fs p))
           (SCHEMA, TARGET_TABLE) = 2 * length (rows df)"
proof -
  let ?tb = "\<lparr>tcolumns = map (\<lambda>c. (fold_name c, ''TEXT'')) (columns df),
              trows = map (map (Some \<circ> py_str)) (iterrows df)\<rparr>"
  let ?db1 = "db\<lparr>schemas := insert SCHEMA (schemas db),
                  tables := (tables db)((SCHEMA, TARGET_TABLE) \<mapsto> ?tb)\<rparr>"
  have 1: "load_to_postgres py_str reserved unparsed db fs p = (?db1, Inr (length (rows df)))"
    by (rule load_new [OF assms])
  have 2: "load_to_postgres py_str reserved unparsed ?db1 fs p =
     (?db1\<lparr>schemas := insert SCHEMA (schemas ?db1),
          tables := (tables ?db1)((SCHEMA, TARGET_TABLE) \<mapsto>
            ?tb\<lparr>trows := trows ?tb @
               map (\<lambda>row. map (map_of (zip (map fold_name (columns df)) (map py_str row)))
                            (map fst (tcolumns ?tb)))
                 (iterrows df)\<rparr>)\<rparr>,
      Inr (length (rows df)))"
    by (rule load_existing [OF assms(1-4)]) (simp_all add: comp_def)
  show ?thesis
    unfolding 1 fst_conv 2 snd_conv by (simp add: row_count_def length_iterrows)
qed

lemma fold_name_lower:
  "list_all (\<lambda>ch. ch \<notin> set ''ABCDEFGHIJKLMNOPQRSTUVWXYZ'') c \<Longrightarrow> fold_name c = c"
  by (induction c) (auto simp: fold_name_def lower_char_def)


text \<open>
  Claim C2, as amended. Let the header of the CSV file be made of names that the server
  reads as columns. A run of \<^verbatim>\<open>load_to_postgres\<close> that commits has executed
  \<^verbatim>\<open>CREATE SCHEMA IF NOT EXISTS\<close>, \<^verbatim>\<open>CREATE TABLE IF NOT EXISTS\<close> and one
  \<^verbatim>\<open>INSERT\<close> for each row of the file, all on \<^verbatim>\<open>week9_movies.movies_final\<close> and
  with the names of the header (folded to lower case, as the server reads them; a name
  without capital letters is taken as it stands); it returns the number of rows of the
  file, no other table has changed, and the table has as many rows as it had before
  plus that number: as many as the file when the table was empty or did not exist. On
  a table that does not exist, a header of names that stay distinct commits.
\<close>

theorem load_to_postgres_row_count:
  assumes "read_csv fs csv_path = Inr df"
    and "list_all (sql_column reserved) (columns df)"
  shows
  "(\<forall>db' n. load_to_postgres py_str reserved unparsed db fs csv_path = (db', Inr n) \<longrightarrow>
      n = length (rows df) \<and>
      execute_all db (load_statements py_str df) = Inr db' \<and>
      length (load_statements py_str df) = 2 + length (rows df) \<and>
      row_count db' (SCHEMA, TARGET_TABLE) =
        row_count db (SCHEMA, TARGET_TABLE) + length (rows df) \<and>
      (row_count db (SCHEMA, TARGET_TABLE) = 0 \<longrightarrow>
         row_count db' (SCHEMA, TARGET_TABLE) = length (rows df)) \<and>
      (\<forall>k. k \<noteq> (SCHEMA, TARGET_TABLE) \<longrightarrow> tables db' k = tables db k)) \<and>
   (columns df \<noteq> [] \<and> distinct (map fold_name (columns df)) \<and>
    tables db (SCHEMA, TARGET_TABLE) = None \<longrightarrow>
      (\<exists>db'. load_to_postgres py_str reserved unparsed db fs csv_path = (db', Inr (length (rows df))) \<and>
         row_count db' (SCHEMA, TARGET_TABLE) = length (rows df))) \<and>
   load_statements py_str df =
     [CreateSchemaIfNotExists SCHEMA,
      CreateTableIfNotExists SCHEMA TARGET_TABLE
        (map (\<lambda>c. (fold_name c, ''TEXT'')) (columns df))] @
     map (\<lambda>row. InsertInto SCHEMA TARGET_TABLE (map fold_name (columns df)) (map py_str row))
       (iterrows df) \<and>
   (\<forall>c. list_all (\<lambda>ch. ch \<notin> set ''ABCDEFGHIJKLMNOPQRSTUVWXYZ'') c \<longrightarrow> fold_name c = c)"
proof -
  have a: "n = length (rows df) \<and>
      execute_all db (load_statements py_str df) = Inr db' \<and>
      length (load_statements py_str df) = 2 + length (rows df) \<and>
      row_count db' (SCHEMA, TARGET_TABLE) =
        row_count db (SCHEMA, TARGET_TABLE) + length (rows df) \<and>
      (row_count db (SCHEMA, TARGET_TABLE) = 0 \<longrightarrow>
         row_count db' (SCHEMA, TARGET_TABLE) = length (rows df)) \<and>
      (\<forall>k. k \<noteq> (SCHEMA, TARGET_TABLE) \<longrightarrow> tables db' k = tables db k)"
    if "load_to_postgres py_str reserved unparsed db fs csv_path = (db', Inr n)" for db' n
  proof -
    from load_count [OF assms that] have
      "n = length (rows df)"
      "execute_all db (load_statements py_str df) = Inr db'"
      "row_count db' (SCHEMA, TARGET_TABLE) = row_count db (SCHEMA, TARGET_TABLE) + n"
      "\<forall>k. k \<noteq> (SCHEMA, TARGET_TABLE) \<longrightarrow> tables db' k = tables db k"
      by blast+
    moreover have "length (load_statements py_str df) = 2 + length (rows df)"
      by (simp add: load_statements_def length_iterrows)
    ultimately show ?thesis by auto
  qed
  have b: "(\<exists>db'. load_to_postgres py_str reserved unparsed db fs csv_path = (db', Inr (length (rows df))) \<and>
         row_count db' (SCHEMA, TARGET_TABLE) = length (rows df))"
    if "columns df \<noteq> [] \<and> distinct (map fold_name (columns df)) \<and>
      tables db (SCHEMA, TARGET_TABLE) = None"
    using that load_new [OF assms, of db py_str unparsed]
    by (simp add: row_count_def length_iterrows)
  have c: "load_statements py_str df =
     [CreateSchemaIfNotExists SCHEMA,
      CreateTableIfNotExists SCHEMA TARGET_TABLE
        (map (\<lambda>c. (fold_name c, ''TEXT'')) (columns df))] @
     map (\<lambda>row. InsertInto SCHEMA TARGET_TABLE (map fold_name (columns df)) (map py_str row))
       (iterrows df)"
    by (simp add: load_statements_def comp_def)
  have d: "(\<forall>c. list_all (\<lambda>ch. ch \<notin> set ''ABCDEFGHIJKLMNOPQRSTUVWXYZ'') c \<longrightarrow> fold_name c = c)"
    by (simp add: fold_name_lower)
  from a b c d show ?thesis by blast
qed

theorem load_to_postgres_row_count_witness:
  "row_count (fst (load_to_postgres (\<lambda>c. ''x'') (\<lambda>w. w \<in> set [''all'', ''order'', ''select'', ''table'', ''user''])
       (\<lambda>df db. (db, Inl SyntaxError)) \<lparr>schemas = {}, tables = Map.empty\<rparr>
       [(''/opt/airflow/data/movies/merged_movies.csv'', File (Csv merged_csv))]
       ''/opt/airflow/data/movies/merged_movies.csv'')) (SCHEMA, TARGET_TABLE) = 5 \<and>
   snd (load_to_postgres (\<lambda>c. ''x'') (\<lambda>w. w \<in> set [''all'', ''order'', ''select'', ''table'', ''user''])
       (\<lambda>df db. (db, Inl SyntaxError)) \<lparr>schemas = {}, tables = Map.empty\<rparr>
       [(''/opt/airflow/data/movies/merged_movies.csv'', File (Csv merged_csv))]
       ''/opt/airflow/data/movies/merged_movies.csv'') = Inr 5"
proof -
  have r: "read_csv [(''/opt/airflow/data/movies/merged_movies.csv'', File (Csv merged_csv))]
       ''/opt/airflow/data/movies/merged_movies.csv'' = Inr merged_csv"
    by (simp add: read_csv_def)
  have s: "list_all (sql_column (\<lambda>w. w \<in> set [''all'', ''order'', ''select'', ''table'', ''user'']))
       (columns merged_csv)"
    by (simp add: merged_csv_def sql_column_def plain_name_def fold_name_def lower_char_def)
  have c: "columns merged_csv \<noteq> [] \<and> distinct (map fold_name (columns merged_csv)) \<and>
     tables \<lparr>schemas = {}, tables = Map.empty\<rparr> (SCHEMA, TARGET_TABLE) = None"
    by (simp add: merged_csv_def fold_name_def lower_char_def)
  have n: "length (rows merged_csv) = 5"
    by (simp add: merged_csv_def)
  from load_to_postgres_row_count [OF r s, of "\<lambda>c. ''x''" "(\<lambda>df db. (db, Inl SyntaxError))" "\<lparr>schemas = {}, tables = Map.empty\<rparr>"]
  have "columns merged_csv \<noteq> [] \<and> distinct (map fold_name (columns merged_csv)) \<and>
     tables \<lparr>schemas = {}, tables = Map.empty\<rparr> (SCHEMA, TARGET_TABLE) = None \<longrightarrow>
     (\<exists>db'. load_to_postgres (\<lambda>c. ''x'') (\<lambda>w. w \<in> set [''all'', ''order'', ''select'', ''table'', ''user''])
       (\<lambda>df db. (db, Inl SyntaxError)) \<lparr>schemas = {}, tables = Map.empty\<rparr>
       [(''/opt/airflow/data/movies/merged_movies.csv'', File (Csv merged_csv))]
       ''/opt/airflow/data/movies/merged_movies.csv'' = (db', Inr (length (rows merged_csv))) \<and>
         row_count db' (SCHEMA, TARGET_TABLE) = length (rows merged_csv))"
    by (rule conjunct2 [THEN conjunct1])
  from this [rule_format, OF c] obtain db' where
    "(load_to_postgres (\<lambda>c. ''x'') (\<lambda>w. w \<in> set [''all'', ''order'', ''select'', ''table'', ''user''])
       (\<lambda>df db. (db, Inl SyntaxError)) \<lparr>schemas = {}, tables = Map.empty\<rparr>
       [(''/opt/airflow/data/movies/merged_movies.csv'', File (Csv merged_csv))]
       ''/opt/airflow/data/movies/merged_movies.csv'') = (db', Inr (length (rows merged_csv)))"
    "row_count db' (SCHEMA, TARGET_TABLE) = length (rows merged_csv)"
    by (elim exE conjE)
  then show ?thesis by (simp only: fst_conv snd_conv n simp_thms)
qed

text \<open>
  Claim C2 as it is stated fails on a second run: loading the merged table of the
  pipeline (five rows) twice into a fresh database leaves ten rows in the table.
\<close>

theorem load_to_postgres_row_count_counterexample:
  "\<forall>py_str unparsed.
     read_csv [(''/opt/airflow/data/movies/merged_movies.csv'', File (Csv merged_csv))]
       ''/opt/airflow/data/movies/merged_movies.csv'' = Inr merged_csv \<and>
     length (rows merged_csv) = 5 \<and>
     snd (load_to_postgres py_str (\<lambda>w. w \<in> set [''all'', ''order'', ''select'', ''table'', ''user'']) unparsed
       (fst (load_to_postgres py_str (\<lambda>w. w \<in> set [''all'', ''order'', ''select'', ''table'', ''user'']) unparsed
          \<lparr>schemas = {}, tables = Map.empty\<rparr>
          [(''/opt/airflow/data/movies/merged_movies.csv'', File (Csv merged_csv))]
          ''/opt/airflow/data/movies/merged_movies.csv''))
       [(''/opt/airflow/data/movies/merged_movies.csv'', File (Csv merged_csv))]
       ''/opt/airflow/data/movies/merged_movies.csv'') = Inr 5 \<and>
     row_count (fst (load_to_postgres py_str (\<lambda>w. w \<in> set [''all'', ''order'', ''select'', ''table'', ''user'']) unparsed
       (fst (load_to_postgres py_str (\<lambda>w. w \<in> set [''all'', ''order'', ''select'', ''table'', ''user'']) unparsed
          \<lparr>schemas = {}, tables = Map.empty\<rparr>
          [(''/opt/airflow/data/movies/merged_movies.csv'', File (Csv merged_csv))]
          ''/opt/airflow/data/movies/merged_movies.csv''))
       [(''/opt/airflow/data/movies/merged_movies.csv'', File (Csv merged_csv))]
       ''/opt/airflow/data/movies/merged_movies.csv'')) (SCHEMA, TARGET_TABLE) = 10"
proof (intro allI)
  fix py_str :: "cell \<Rightarrow> string"
  fix unparsed :: "frame \<Rightarrow> database \<Rightarrow> database \<times> (error + nat)"
  have r: "read_csv [(''/opt/airflow/data/movies/merged_movies.csv'', File (Csv merged_csv))]
       ''/opt/airflow/data/movies/merged_movies.csv'' = Inr merged_csv"
    by (simp add: read_csv_def)
  have s: "list_all (sql_column (\<lambda>w. w \<in> set [''all'', ''order'', ''select'', ''table'', ''user'']))
       (columns merged_csv)"
    by (simp add: merged_csv_def sql_column_def plain_name_def fold_name_def lower_char_def)
  have c: "columns merged_csv \<noteq> []" "distinct (map fold_name (columns merged_csv))"
    "length (rows merged_csv) = 5"
    by (simp_all add: merged_csv_def fold_name_def lower_char_def)
  have t: "tables \<lparr>schemas = {}, tables = Map.empty\<rparr> (SCHEMA, TARGET_TABLE) = None"
    by simp
  from load_twice [OF r s c(1,2) t, of py_str unparsed] r c(3)
  show "read_csv [(''/opt/airflow/data/movies/merged_movies.csv'', File (Csv merged_csv))]
       ''/opt/airflow/data/movies/merged_movies.csv'' = Inr merged_csv \<and>
     length (rows merged_csv) = 5 \<and>
     snd (load_to_postgres py_str (\<lambda>w. w \<in> set [''all'', ''order'', ''select'', ''table'', ''user'']) unparsed
       (fst (load_to_postgres py_str (\<lambda>w. w \<in> set [''all'', ''order'', ''select'', ''table'', ''user'']) unparsed
          \<lparr>schemas = {}, tables = Map.empty\<rparr>
          [(''/opt/airflow/data/movies/merged_movies.csv'', File (Csv merged_csv))]
          ''/opt/airflow/data/movies/merged_movies.csv''))
       [(''/opt/airflow/data/movies/merged_movies.csv'', File (Csv merged_csv))]
       ''/opt/airflow/data/movies/merged_movies.csv'') = Inr 5 \<and>
     row_count (fst (load_to_postgres py_str (\<lambda>w. w \<in> set [''all'', ''order'', ''select'', ''table'', ''user'']) unparsed
       (fst (load_to_postgres py_str (\<lambda>w. w \<in> set [''all'', ''order'', ''select'', ''table'', ''user'']) unparsed
          \<lparr>schemas = {}, tables = Map.empty\<rparr>
          [(''/opt/airflow/data/movies/merged_movies.csv'', File (Csv merged_csv))]
          ''/opt/airflow/data/movies/merged_movies.csv''))
       [(''/opt/airflow/data/movies/merged_movies.csv'', File (Csv merged_csv))]
       ''/opt/airflow/data/movies/merged_movies.csv'')) (SCHEMA, TARGET_TABLE) = 10"
    by simp
qed




section \<open>The order of the tasks\<close>

lemma valid_run_suffix: "valid_run (xs @ ys) \<Longrightarrow> valid_run ys"
  by (induction xs) auto

lemma running_started: "running t h \<Longrightarrow> Start t \<in> set h"
  by (induction h) (auto split: if_splits)

lemma start_after_upstream:
  assumes "valid_run (later @ Start t # earlier)" "u \<in> set (upstream t)"
  shows "Success u \<in> set earlier"
proof -
  from assms(1) have "valid_run (Start t # earlier)" by (rule valid_run_suffix)
  with assms(2) show ?thesis by (simp add: list_all_iff)
qed

lemma succeeded_upstream:
  assumes "valid_run h" "Success t \<in> set h" "u \<in> set (upstream t)"
  shows "Success u \<in> set h"
proof -
  from assms(2) obtain l e where h: "h = l @ Success t # e" by (meson split_list)
  with assms(1) have v: "valid_run (Success t # e)" by (auto dest: valid_run_suffix)
  then have "Start t \<in> set e" by (auto dest: running_started)
  then obtain l2 e2 where e: "e = l2 @ Start t # e2" by (meson split_list)
  from v have "valid_run e" by simp
  with e assms(3) have "Success u \<in> set e2" by (auto dest: start_after_upstream)
  with h e show ?thesis by simp
qed

lemma success_final: "valid_run h \<Longrightarrow> Success t \<in> set h \<Longrightarrow> \<not> running t h"
proof (induction h)
  case Nil
  then show ?case by simp
next
  case (Cons e h)
  show ?case
  proof (cases "Success t \<in> set h")
    case True
    with Cons have nr: "\<not> running t h" by simp
    from Cons.prems(1) have m: "may_happen e h" by simp
    show ?thesis
    proof (cases e)
      case (Start x)
      with m True nr show ?thesis by auto
    next
      case (Success x)
      with nr show ?thesis by auto
    next
      case (Failure x)
      with nr show ?thesis by auto
    qed
  next
    case False
    with Cons.prems(2) have "e = Success t" by simp
    then show ?thesis by simp
  qed
qed

lemma upstream_values:
  "set (upstream T_transform_movies) = {T_fetch_movies}"
  "set (upstream T_transform_ratings) = {T_fetch_ratings}"
  "set (upstream T_merge_datasets) = {T_transform_movies, T_transform_ratings}"
  "set (upstream T_load_to_postgres) = {T_merge_datasets}"
  "set (upstream T_analyze_and_visualize) = {T_merge_datasets, T_load_to_postgres}"
  "set (upstream T_cleanup_folder) = {T_analyze_and_visualize}"
  "upstream T_fetch_movies = []"
  "upstream T_fetch_ratings = []"
  by (auto simp: upstream_def argument_edges_def declared_edges_def)

lemma all_succeeded:
  assumes "valid_run h" "Success T_analyze_and_visualize \<in> set h"
  shows "Success T_load_to_postgres \<in> set h \<and> Success T_merge_datasets \<in> set h \<and>
         Success T_transform_movies \<in> set h \<and> Success T_transform_ratings \<in> set h \<and>
         Success T_fetch_movies \<in> set h \<and> Success T_fetch_ratings \<in> set h"
proof -
  have ld: "Success T_load_to_postgres \<in> set h"
    by (rule succeeded_upstream [OF assms]) (simp add: upstream_values)
  have mg: "Success T_merge_datasets \<in> set h"
    by (rule succeeded_upstream [OF assms]) (simp add: upstream_values)
  have tm: "Success T_transform_movies \<in> set h"
    by (rule succeeded_upstream [OF assms(1) mg]) (simp add: upstream_values)
  have tr: "Success T_transform_ratings \<in> set h"
    by (rule succeeded_upstream [OF assms(1) mg]) (simp add: upstream_values)
  have fm: "Success T_fetch_movies \<in> set h"
    by (rule succeeded_upstream [OF assms(1) tm]) (simp add: upstream_values)
  have fr: "Success T_fetch_ratings \<in> set h"
    by (rule succeeded_upstream [OF assms(1) tr]) (simp add: upstream_values)
  from ld mg tm tr fm fr show ?thesis by simp
qed

text \<open>
  Claim C5. In every run that the scheduler can produce from the edges of the DAG, a
  task starts only after the tasks before it in the sequence fetch, transform, merge,
  load, visualize, cleanup have succeeded: each transformation after its fetch task,
  the merge after both transformations, the load after the merge, the visualization
  after the load, the cleanup after the visualization and so after all seven other
  tasks. Once the cleanup has started, neither the load nor the visualization is
  running or starts again. (The two branches are not ordered with respect to each
  other.)
\<close>

theorem dag_order:
  assumes "valid_run (later @ e # earlier)"
  shows
    "(e = Start T_transform_movies \<longrightarrow> Success T_fetch_movies \<in> set earlier) \<and>
     (e = Start T_transform_ratings \<longrightarrow> Success T_fetch_ratings \<in> set earlier) \<and>
     (e = Start T_merge_datasets \<longrightarrow>
        Success T_transform_movies \<in> set earlier \<and>
        Success T_transform_ratings \<in> set earlier) \<and>
     (e = Start T_load_to_postgres \<longrightarrow> Success T_merge_datasets \<in> set earlier) \<and>
     (e = Start T_analyze_and_visualize \<longrightarrow>
        Success T_load_to_postgres \<in> set earlier \<and>
        Success T_merge_datasets \<in> set earlier) \<and>
     (e = Start T_cleanup_folder \<longrightarrow>
        Success T_analyze_and_visualize \<in> set earlier \<and>
        Success T_load_to_postgres \<in> set earlier \<and>
        Success T_merge_datasets \<in> set earlier \<and>
        Success T_transform_movies \<in> set earlier \<and>
        Success T_transform_ratings \<in> set earlier \<and>
        Success T_fetch_movies \<in> set earlier \<and>
        Success T_fetch_ratings \<in> set earlier \<and>
        \<not> running T_load_to_postgres earlier \<and>
        \<not> running T_analyze_and_visualize earlier) \<and>
     (Start T_cleanup_folder \<in> set earlier \<longrightarrow>
        e \<noteq> Start T_load_to_postgres \<and> e \<noteq> Start T_analyze_and_visualize \<and>
        \<not> running T_load_to_postgres earlier \<and>
        \<not> running T_analyze_and_visualize earlier)"
proof -
  have v: "valid_run earlier" "may_happen e earlier"
    using valid_run_suffix [OF assms] by simp_all
  have up: "Success u \<in> set earlier" if "e = Start t" "u \<in> set (upstream t)" for t u
    using assms that by (auto dest: start_after_upstream)
  have fin: "Success T_load_to_postgres \<in> set earlier \<and>
      Success T_merge_datasets \<in> set earlier \<and>
      Success T_transform_movies \<in> set earlier \<and>
      Success T_transform_ratings \<in> set earlier \<and>
      Success T_fetch_movies \<in> set earlier \<and>
      Success T_fetch_ratings \<in> set earlier \<and>
      \<not> running T_load_to_postgres earlier \<and>
      \<not> running T_analyze_and_visualize earlier"
    if "Success T_analyze_and_visualize \<in> set earlier"
    using all_succeeded [OF v(1) that] success_final [OF v(1)] that by simp
  have cl: "Success T_analyze_and_visualize \<in> set earlier" if "e = Start T_cleanup_folder"
    using up [OF that] by (simp add: upstream_values)
  have after: "e \<noteq> Start T_load_to_postgres \<and> e \<noteq> Start T_analyze_and_visualize \<and>
        \<not> running T_load_to_postgres earlier \<and>
        \<not> running T_analyze_and_visualize earlier"
    if "Start T_cleanup_folder \<in> set earlier"
  proof -
    from that obtain l e2 where "earlier = l @ Start T_cleanup_folder # e2"
      by (meson split_list)
    with v(1) have "Success T_analyze_and_visualize \<in> set earlier"
      using start_after_upstream [of l T_cleanup_folder e2 T_analyze_and_visualize]
      by (simp add: upstream_values)
    from fin [OF this] this v(2) show ?thesis by auto
  qed
  show ?thesis
    using up fin cl after by (simp add: upstream_values)
qed


theorem dag_order_witness:
  "valid_run
     ([Success T_cleanup_folder] @ Start T_cleanup_folder #
      [Success T_analyze_and_visualize, Start T_analyze_and_visualize,
      Success T_load_to_postgres, Start T_load_to_postgres,
      Failure T_load_to_postgres, Start T_load_to_postgres,
      Success T_merge_datasets, Start T_merge_datasets,
      Success T_transform_ratings, Start T_transform_ratings,
      Success T_transform_movies, Success T_fetch_ratings,
      Start T_transform_movies, Success T_fetch_movies,
      Start T_fetch_ratings, Start T_fetch_movies]) \<and>
   Success T_load_to_postgres \<in> set
     [Success T_analyze_and_visualize, Start T_analyze_and_visualize,
      Success T_load_to_postgres, Start T_load_to_postgres,
      Failure T_load_to_postgres, Start T_load_to_postgres,
      Success T_merge_datasets, Start T_merge_datasets,
      Success T_transform_ratings, Start T_transform_ratings,
      Success T_transform_movies, Success T_fetch_ratings,
      Start T_transform_movies, Success T_fetch_movies,
      Start T_fetch_ratings, Start T_fetch_movies] \<and>
   Success T_analyze_and_visualize \<in> set
     [Success T_analyze_and_visualize, Start T_analyze_and_visualize,
      Success T_load_to_postgres, Start T_load_to_postgres,
      Failure T_load_to_postgres, Start T_load_to_postgres,
      Success T_merge_datasets, Start T_merge_datasets,
      Success T_transform_ratings, Start T_transform_ratings,
      Success T_transform_movies, Success T_fetch_ratings,
      Start T_transform_movies, Success T_fetch_movies,
      Start T_fetch_ratings, Start T_fetch_movies] \<and>
   Success T_transform_movies \<in> set
     [Success T_transform_ratings, Start T_transform_ratings,
      Success T_transform_movies, Success T_fetch_ratings,
      Start T_transform_movies, Success T_fetch_movies,
      Start T_fetch_ratings, Start T_fetch_movies] \<and>
   Success T_transform_ratings \<in> set
     [Success T_transform_ratings, Start T_transform_ratings,
      Success T_transform_movies, Success T_fetch_ratings,
      Start T_transform_movies, Success T_fetch_movies,
      Start T_fetch_ratings, Start T_fetch_movies]"
  using dag_order
    [of "[Success T_cleanup_folder]" "Start T_cleanup_folder"
     "[Success T_analyze_and_visualize, Start T_analyze_and_visualize,
      Success T_load_to_postgres, Start T_load_to_postgres,
      Failure T_load_to_postgres, Start T_load_to_postgres,
      Success T_merge_datasets, Start T_merge_datasets,
      Success T_transform_ratings, Start T_transform_ratings,
      Success T_transform_movies, Success T_fetch_ratings,
      Start T_transform_movies, Success T_fetch_movies,
      Start T_fetch_ratings, Start T_fetch_movies]"]
    dag_order
    [of "[Success T_cleanup_folder, Start T_cleanup_folder,
      Success T_analyze_and_visualize, Start T_analyze_and_visualize,
      Success T_load_to_postgres, Start T_load_to_postgres,
      Failure T_load_to_postgres, Start T_load_to_postgres,
      Success T_merge_datasets]" "Start T_merge_datasets"
     "[Success T_transform_ratings, Start T_transform_ratings,
      Success T_transform_movies, Success T_fetch_ratings,
      Start T_transform_movies, Success T_fetch_movies,
      Start T_fetch_ratings, Start T_fetch_movies]"]
  by (simp add: upstream_def argument_edges_def declared_edges_def)

section \<open>The cleanup\<close>

lemma child_name_join:
  assumes "child_name folder p = Some n" "folder \<noteq> []"
  shows "p = os_path_join folder n \<and> n \<noteq> [] \<and> CHR ''/'' \<notin> set n"
proof -
  define pre where
    "pre = (if folder \<noteq> [] \<and> last folder = CHR ''/'' then folder else folder @ ''/'')"
  from assms(1) have t: "take (length pre) p = pre" and d: "drop (length pre) p = n"
    and ne: "n \<noteq> []" and sl: "CHR ''/'' \<notin> set n"
    by (auto simp: child_name_def Let_def pre_def split: if_splits)
  have "take (length pre) p @ drop (length pre) p = p" by (rule append_take_drop_id)
  then have p: "pre @ n = p" by (simp only: t d)
  have h: "hd n \<noteq> CHR ''/''" using ne sl by (cases n) auto
  have j: "os_path_join folder n = pre @ n"
    using ne h assms(2) by (simp add: os_path_join_def pre_def)
  from p j ne sl show ?thesis by simp
qed

lemma join_child_name:
  assumes "n \<noteq> []" "CHR ''/'' \<notin> set n" "folder \<noteq> []"
  shows "child_name folder (os_path_join folder n) = Some n"
proof -
  from assms(1,2) have "hd n \<noteq> CHR ''/''" by (cases n) auto
  with assms show ?thesis by (simp add: child_name_def os_path_join_def Let_def)
qed

lemma join_inject:
  assumes "CHR ''/'' \<notin> set n" "CHR ''/'' \<notin> set m" "n \<noteq> []" "m \<noteq> []"
    "os_path_join folder n = os_path_join folder m"
  shows "n = m"
proof -
  from assms(1,3) have n: "hd n \<noteq> CHR ''/''" by (cases n) auto
  from assms(2,4) have m: "hd m \<noteq> CHR ''/''" by (cases m) auto
  from assms(3,4,5) n m show ?thesis by (simp add: os_path_join_def split: if_splits)
qed

lemma os_remove_map:
  "os_remove fs q = Inr fs1 \<Longrightarrow>
   (\<exists>c. map_of fs q = Some (File c)) \<and> map_of fs1 = (map_of fs)(q := None)"
  by (auto simp: os_remove_def delete_conv' split: option.splits node.splits)

lemma cleanup_loop_frame:
  "map_of (fst (cleanup_loop fs folder names)) p = map_of fs p \<or>
   (map_of (fst (cleanup_loop fs folder names)) p = None \<and>
    (\<exists>n \<in> set names. endswith n ''.csv'' \<and> p = os_path_join folder n \<and>
       (\<exists>c. map_of fs p = Some (File c))))"
proof (induction names arbitrary: fs)
  case Nil
  then show ?case by simp
next
  case (Cons name rest)
  show ?case
  proof (cases "endswith name ''.csv''")
    case False
    with Cons.IH [of fs] show ?thesis by auto
  next
    case True
    show ?thesis
    proof (cases "os_remove fs (os_path_join folder name)")
      case (Inl e)
      with True show ?thesis by simp
    next
      case (Inr fs1)
      from os_remove_map [OF Inr] obtain c where
        c: "map_of fs (os_path_join folder name) = Some (File c)" and
        m: "map_of fs1 = (map_of fs)(os_path_join folder name := None)"
        by blast
      from True Inr have run:
        "cleanup_loop fs folder (name # rest) = cleanup_loop fs1 folder rest"
        by simp
      show ?thesis
      proof (cases "p = os_path_join folder name")
        case same: True
        from Cons.IH [of fs1] m same
        have "map_of (fst (cleanup_loop fs1 folder rest)) p = None" by auto
        with same c True show ?thesis unfolding run by auto
      next
        case other: False
        with m have "map_of fs1 p = map_of fs p" by simp
        with Cons.IH [of fs1] show ?thesis unfolding run by auto
      qed
    qed
  qed
qed

lemma cleanup_loop_removed:
  assumes "snd (cleanup_loop fs folder names) = Inr ()" "n \<in> set names" "endswith n ''.csv''"
  shows "map_of (fst (cleanup_loop fs folder names)) (os_path_join folder n) = None"
  using assms
proof (induction names arbitrary: fs)
  case Nil
  then show ?case by simp
next
  case (Cons name rest)
  show ?case
  proof (cases "endswith name ''.csv''")
    case False
    with Cons.prems have "n \<in> set rest" "snd (cleanup_loop fs folder rest) = Inr ()"
      by auto
    from Cons.IH [OF this(2) this(1) Cons.prems(3)] False show ?thesis by simp
  next
    case True
    with Cons.prems(1) obtain fs1 where
      r: "os_remove fs (os_path_join folder name) = Inr fs1"
      by (cases "os_remove fs (os_path_join folder name)") auto
    with True have run:
      "cleanup_loop fs folder (name # rest) = cleanup_loop fs1 folder rest"
      by simp
    from Cons.prems(1) have ok: "snd (cleanup_loop fs1 folder rest) = Inr ()"
      unfolding run .
    show ?thesis
    proof (cases "n = name")
      case same: True
      from os_remove_map [OF r] have "map_of fs1 (os_path_join folder name) = None" by simp
      with cleanup_loop_frame [of fs1 folder rest "os_path_join folder name"]
      have "map_of (fst (cleanup_loop fs1 folder rest)) (os_path_join folder name) = None"
        by auto
      with same show ?thesis unfolding run by simp
    next
      case False
      with Cons.prems(2) have "n \<in> set rest" by simp
      from Cons.IH [OF ok this Cons.prems(3)] show ?thesis unfolding run .
    qed
  qed
qed

lemma cleanup_loop_returns:
  assumes "distinct names"
    and "list_all (\<lambda>n. n \<noteq> [] \<and> CHR ''/'' \<notin> set n) names"
    and "list_all (\<lambda>n. endswith n ''.csv'' \<longrightarrow>
           (\<exists>c. map_of fs (os_path_join folder n) = Some (File c))) names"
  shows "snd (cleanup_loop fs folder names) = Inr ()"
  using assms
proof (induction names arbitrary: fs)
  case Nil
  then show ?case by simp
next
  case (Cons name rest)
  from Cons.prems have d: "distinct rest" "name \<notin> set rest"
    and s: "list_all (\<lambda>n. n \<noteq> [] \<and> CHR ''/'' \<notin> set n) rest"
    and sn: "name \<noteq> []" "CHR ''/'' \<notin> set name"
    and f: "list_all (\<lambda>n. endswith n ''.csv'' \<longrightarrow>
           (\<exists>c. map_of fs (os_path_join folder n) = Some (File c))) rest"
    by simp_all
  show ?case
  proof (cases "endswith name ''.csv''")
    case False
    from Cons.IH [OF d(1) s f] False show ?thesis by simp
  next
    case True
    with Cons.prems(3) obtain c where
      c: "map_of fs (os_path_join folder name) = Some (File c)" by auto
    let ?fs1 = "AList.delete (os_path_join folder name) fs"
    from c have r: "os_remove fs (os_path_join folder name) = Inr ?fs1"
      by (simp add: os_remove_def)
    have "list_all (\<lambda>n. endswith n ''.csv'' \<longrightarrow>
           (\<exists>c. map_of ?fs1 (os_path_join folder n) = Some (File c))) rest"
      unfolding list_all_iff
    proof (intro ballI impI)
      fix n assume n: "n \<in> set rest" "endswith n ''.csv''"
      with d(2) have "n \<noteq> name" by auto
      moreover from s n(1) have "n \<noteq> []" "CHR ''/'' \<notin> set n"
        by (simp_all add: list_all_iff)
      ultimately have "os_path_join folder n \<noteq> os_path_join folder name"
        using join_inject [of n name folder] sn by blast
      moreover from f n obtain c' where "map_of fs (os_path_join folder n) = Some (File c')"
        by (auto simp: list_all_iff)
      ultimately show "\<exists>c. map_of ?fs1 (os_path_join folder n) = Some (File c)"
        by (simp add: delete_conv')
    qed
    from Cons.IH [OF d(1) s this] True r show ?thesis by simp
  qed
qed

lemma set_map_filter: "set (List.map_filter f xs) = {y. \<exists>x \<in> set xs. f x = Some y}"
  by (induction xs) (auto simp: map_filter_simps split: option.splits)

lemma listdir_names:
  assumes "listdir fs folder = Inr names"
  shows "folder \<noteq> [] \<and> distinct names \<and>
         (\<forall>n. n \<in> set names \<longleftrightarrow> (\<exists>p. map_of fs p \<noteq> None \<and> child_name folder p = Some n))"
proof -
  from assms have f: "folder \<noteq> []"
    and n: "names = remdups (List.map_filter (child_name folder) (map fst fs))"
    by (auto simp: listdir_def split: if_splits option.splits node.splits)
  have keys: "map_of fs p \<noteq> None \<longleftrightarrow> p \<in> set (map fst fs)" for p
    by (simp add: map_of_eq_None_iff)
  have "n \<in> set names \<longleftrightarrow> (\<exists>p. map_of fs p \<noteq> None \<and> child_name folder p = Some n)" for n
    unfolding n keys set_remdups set_map_filter by blast
  with f n show ?thesis by simp
qed

lemma listdir_ok:
  "folder \<noteq> [] \<Longrightarrow> map_of fs folder = Some Dir \<Longrightarrow> \<exists>names. listdir fs folder = Inr names"
  by (simp add: listdir_def)

lemma png_not_entry:
  "child_name OUTPUT_DIR ''/opt/airflow/data/movies/visuals/avg_rating_by_genre.png'' = None"
  by (simp add: child_name_def OUTPUT_DIR_def)

lemma visuals_entry:
  "child_name OUTPUT_DIR ''/opt/airflow/data/movies/visuals'' = Some ''visuals'' \<and>
   \<not> endswith ''visuals'' ''.csv''"
  by (simp add: child_name_def OUTPUT_DIR_def endswith_def)

lemma cleanup_folder_frame:
  "map_of (fst (cleanup_folder fs folder)) p = map_of fs p \<or>
   (map_of (fst (cleanup_folder fs folder)) p = None \<and>
    (\<exists>name c. child_name folder p = Some name \<and> endswith name ''.csv'' \<and>
       map_of fs p = Some (File c)))"
proof (cases "listdir fs folder")
  case (Inl e)
  then show ?thesis by (simp add: cleanup_folder_def)
next
  case (Inr names)
  then have run: "cleanup_folder fs folder = cleanup_loop fs folder names"
    by (simp add: cleanup_folder_def)
  from listdir_names [OF Inr] have f: "folder \<noteq> []"
    and mem: "\<And>n. n \<in> set names \<Longrightarrow> \<exists>q. child_name folder q = Some n"
    by auto
  from cleanup_loop_frame [of fs folder names p] show ?thesis
  proof
    assume "map_of (fst (cleanup_loop fs folder names)) p = map_of fs p"
    then show ?thesis unfolding run by simp
  next
    assume "map_of (fst (cleanup_loop fs folder names)) p = None \<and>
      (\<exists>n \<in> set names. endswith n ''.csv'' \<and> p = os_path_join folder n \<and>
         (\<exists>c. map_of fs p = Some (File c)))"
    then obtain n c where gone: "map_of (fst (cleanup_loop fs folder names)) p = None"
      and n: "n \<in> set names" "endswith n ''.csv''" "p = os_path_join folder n"
      and c: "map_of fs p = Some (File c)"
      by blast
    from mem [OF n(1)] obtain q where q: "child_name folder q = Some n" by blast
    from child_name_join [OF q f] n(3) have "q = p" by simp
    with q have "child_name folder p = Some n" by simp
    with gone n(2) c show ?thesis unfolding run by blast
  qed
qed

lemma cleanup_folder_removed:
  assumes "snd (cleanup_folder fs folder) = Inr ()"
    and "child_name folder p = Some name" "endswith name ''.csv''"
  shows "map_of (fst (cleanup_folder fs folder)) p = None"
proof (cases "map_of fs p")
  case None
  with cleanup_folder_frame [of fs folder p] show ?thesis by auto
next
  case (Some nd)
  from assms(1) obtain names where l: "listdir fs folder = Inr names"
    by (cases "listdir fs folder") (auto simp: cleanup_folder_def)
  then have run: "cleanup_folder fs folder = cleanup_loop fs folder names"
    by (simp add: cleanup_folder_def)
  from listdir_names [OF l] Some assms(2) have f: "folder \<noteq> []" and n: "name \<in> set names"
    by auto
  from child_name_join [OF assms(2) f] have p: "p = os_path_join folder name" by simp
  from assms(1) have "snd (cleanup_loop fs folder names) = Inr ()" unfolding run .
  from cleanup_loop_removed [OF this n assms(3)] show ?thesis unfolding run p .
qed

lemma cleanup_folder_returns:
  assumes "folder \<noteq> []" "map_of fs folder = Some Dir"
    and "\<And>p name. child_name folder p = Some name \<Longrightarrow> endswith name ''.csv'' \<Longrightarrow>
           map_of fs p \<noteq> Some Dir"
  shows "snd (cleanup_folder fs folder) = Inr ()"
proof -
  from listdir_ok [OF assms(1,2)] obtain names where l: "listdir fs folder = Inr names"
    by blast
  then have run: "cleanup_folder fs folder = cleanup_loop fs folder names"
    by (simp add: cleanup_folder_def)
  from listdir_names [OF l] have d: "distinct names"
    and mem: "\<And>n. n \<in> set names \<Longrightarrow> \<exists>q. map_of fs q \<noteq> None \<and> child_name folder q = Some n"
    by auto
  have s: "list_all (\<lambda>n. n \<noteq> [] \<and> CHR ''/'' \<notin> set n) names"
    unfolding list_all_iff
  proof
    fix n assume "n \<in> set names"
    from mem [OF this] obtain q where "child_name folder q = Some n" by blast
    from child_name_join [OF this assms(1)] show "n \<noteq> [] \<and> CHR ''/'' \<notin> set n" by simp
  qed
  have fl: "list_all (\<lambda>n. endswith n ''.csv'' \<longrightarrow>
           (\<exists>c. map_of fs (os_path_join folder n) = Some (File c))) names"
    unfolding list_all_iff
  proof (intro ballI impI)
    fix n assume n: "n \<in> set names" "endswith n ''.csv''"
    from mem [OF n(1)] obtain q where q: "map_of fs q \<noteq> None" "child_name folder q = Some n"
      by blast
    from child_name_join [OF q(2) assms(1)] have e: "q = os_path_join folder n" by simp
    from assms(3) [OF q(2) n(2)] q(1) obtain c where "map_of fs q = Some (File c)"
      by (cases "map_of fs q") (auto intro: node.exhaust)
    with e show "\<exists>c. map_of fs (os_path_join folder n) = Some (File c)" by auto
  qed
  from cleanup_loop_returns [OF d s fl] show ?thesis unfolding run .
qed

text \<open>
  Claim C3. \<^verbatim>\<open>cleanup_folder\<close> removes nothing but files that are entries of the folder
  with a name that ends in \<^verbatim>\<open>.csv\<close>: every other path keeps what is stored there, in
  every run. When the task returns, every entry of the folder with such a name is gone;
  and it returns whenever the folder is a directory and none of these entries is itself
  a directory (on which \<^verbatim>\<open>os.remove\<close> raises). For the output directory, the chart
  under \<^verbatim>\<open>visuals\<close> and the directory \<^verbatim>\<open>visuals\<close> are left as they are.
\<close>

theorem cleanup_folder_removes_csv:
  "(map_of (fst (cleanup_folder fs folder)) p = map_of fs p \<or>
    (map_of (fst (cleanup_folder fs folder)) p = None \<and>
     (\<exists>name c. child_name folder p = Some name \<and> endswith name ''.csv'' \<and>
        map_of fs p = Some (File c)))) \<and>
   (snd (cleanup_folder fs folder) = Inr () \<longrightarrow>
      (\<forall>q name. child_name folder q = Some name \<and> endswith name ''.csv'' \<longrightarrow>
         map_of (fst (cleanup_folder fs folder)) q = None)) \<and>
   (folder \<noteq> [] \<and> map_of fs folder = Some Dir \<and>
    (\<forall>q name. child_name folder q = Some name \<and> endswith name ''.csv'' \<longrightarrow>
       map_of fs q \<noteq> Some Dir) \<longrightarrow>
      snd (cleanup_folder fs folder) = Inr ()) \<and>
   map_of (fst (cleanup_folder fs OUTPUT_DIR))
       ''/opt/airflow/data/movies/visuals/avg_rating_by_genre.png'' =
     map_of fs ''/opt/airflow/data/movies/visuals/avg_rating_by_genre.png'' \<and>
   map_of (fst (cleanup_folder fs OUTPUT_DIR)) ''/opt/airflow/data/movies/visuals'' =
     map_of fs ''/opt/airflow/data/movies/visuals''"
proof -
  have removed: "map_of (fst (cleanup_folder fs folder)) q = None"
    if "snd (cleanup_folder fs folder) = Inr ()"
      "child_name folder q = Some name \<and> endswith name ''.csv''" for q name
    using that cleanup_folder_removed [of fs folder q name] by simp
  have returns: "snd (cleanup_folder fs folder) = Inr ()"
    if "folder \<noteq> [] \<and> map_of fs folder = Some Dir \<and>
    (\<forall>q name. child_name folder q = Some name \<and> endswith name ''.csv'' \<longrightarrow>
       map_of fs q \<noteq> Some Dir)"
    using that by (intro cleanup_folder_returns) blast+
  have png: "map_of (fst (cleanup_folder fs OUTPUT_DIR))
       ''/opt/airflow/data/movies/visuals/avg_rating_by_genre.png'' =
     map_of fs ''/opt/airflow/data/movies/visuals/avg_rating_by_genre.png''"
    using cleanup_folder_frame
      [of fs OUTPUT_DIR "''/opt/airflow/data/movies/visuals/avg_rating_by_genre.png''"]
    by (simp add: png_not_entry)
  have vis: "map_of (fst (cleanup_folder fs OUTPUT_DIR)) ''/opt/airflow/data/movies/visuals'' =
     map_of fs ''/opt/airflow/data/movies/visuals''"
    using cleanup_folder_frame [of fs OUTPUT_DIR "''/opt/airflow/data/movies/visuals''"]
    by (simp add: visuals_entry)
  show ?thesis
    apply (intro conjI)
        apply (rule cleanup_folder_frame)
    using removed apply blast
    using returns apply blast
     apply (rule png)
    apply (rule vis)
    done
qed

theorem cleanup_folder_removes_csv_witness:
  "snd (cleanup_folder
      [(''/opt/airflow/data/movies'', Dir),
       (''/opt/airflow/data/movies/movies.csv'', File Blank),
       (''/opt/airflow/data/movies/notes.txt'', File Blank),
       (''/opt/airflow/data/movies/visuals'', Dir),
       (''/opt/airflow/data/movies/merged_movies.csv'', File Blank),
       (''/opt/airflow/data/movies/visuals/avg_rating_by_genre.png'', File Blank),
       (''/opt/airflow/data/movies/visuals/old.csv'', File Blank)]
      OUTPUT_DIR) = Inr () \<and>
   map_of (fst (cleanup_folder
      [(''/opt/airflow/data/movies'', Dir),
       (''/opt/airflow/data/movies/movies.csv'', File Blank),
       (''/opt/airflow/data/movies/notes.txt'', File Blank),
       (''/opt/airflow/data/movies/visuals'', Dir),
       (''/opt/airflow/data/movies/merged_movies.csv'', File Blank),
       (''/opt/airflow/data/movies/visuals/avg_rating_by_genre.png'', File Blank),
       (''/opt/airflow/data/movies/visuals/old.csv'', File Blank)]
      OUTPUT_DIR)) ''/opt/airflow/data/movies/merged_movies.csv'' = None \<and>
   map_of (fst (cleanup_folder
      [(''/opt/airflow/data/movies'', Dir),
       (''/opt/airflow/data/movies/movies.csv'', File Blank),
       (''/opt/airflow/data/movies/notes.txt'', File Blank),
       (''/opt/airflow/data/movies/visuals'', Dir),
       (''/opt/airflow/data/movies/merged_movies.csv'', File Blank),
       (''/opt/airflow/data/movies/visuals/avg_rating_by_genre.png'', File Blank),
       (''/opt/airflow/data/movies/visuals/old.csv'', File Blank)]
      OUTPUT_DIR)) ''/opt/airflow/data/movies/visuals/avg_rating_by_genre.png'' =
     Some (File Blank)"
  using cleanup_folder_removes_csv
    [of "[(''/opt/airflow/data/movies'', Dir),
       (''/opt/airflow/data/movies/movies.csv'', File Blank),
       (''/opt/airflow/data/movies/notes.txt'', File Blank),
       (''/opt/airflow/data/movies/visuals'', Dir),
       (''/opt/airflow/data/movies/merged_movies.csv'', File Blank),
       (''/opt/airflow/data/movies/visuals/avg_rating_by_genre.png'', File Blank),
       (''/opt/airflow/data/movies/visuals/old.csv'', File Blank)]"
     OUTPUT_DIR "''/opt/airflow/data/movies/merged_movies.csv''"]
  by (simp add: cleanup_folder_def listdir_def child_name_def map_filter_simps endswith_def
      os_remove_def os_path_join_def OUTPUT_DIR_def)

section \<open>The chart\<close>
















end
